theory Spec2Isabelle
  imports Main
begin

section \<open>The SPM local package-file backend (\<^verbatim>\<open>salt/spm/pkgfiles/local.py\<close>)\<close>

text \<open>
  A shallow embedding of the module: Python strings are \<^typ>\<open>string\<close>, dicts are maps,
  \<^verbatim>\<open>None\<close> is \<^term>\<open>None\<close>, every \<^verbatim>\<open>raise\<close> is an \<^term>\<open>Inl\<close> value, and the
  filesystem, the log and the archive are an explicit \<open>world\<close> that each function takes and
  returns.
\<close>

subsection \<open>Exceptions\<close>

text \<open>
  \<^verbatim>\<open>OSError\<close> carries its \<^verbatim>\<open>errno\<close> attribute, which Python leaves \<^verbatim>\<open>None\<close> when the
  exception is built from a message alone, and its message. \<^verbatim>\<open>IOError\<close> is the same class.
\<close>

datatype exn =
    KeyError string
  | OSError "nat option" string
  | OtherError string

definition ENOENT :: nat where "ENOENT = 2"
definition EACCES :: nat where "EACCES = 13"
definition ENOTDIR :: nat where "ENOTDIR = 20"
definition EEXIST :: nat where "EEXIST = 17"
definition EISDIR :: nat where "EISDIR = 21"

subsection \<open>String operations of Python used by the module\<close>

text \<open>\<^verbatim>\<open>s.startswith(p)\<close>\<close>

fun startswith :: "string \<Rightarrow> string \<Rightarrow> bool" where
  "startswith s [] = True"
| "startswith [] (p # ps) = False"
| "startswith (c # cs) (p # ps) = (c = p \<and> startswith cs ps)"

text \<open>\<^verbatim>\<open>s.endswith(p)\<close>\<close>

definition endswith :: "string \<Rightarrow> string \<Rightarrow> bool" where
  "endswith s p = startswith (rev s) (rev p)"

text \<open>
  \<^verbatim>\<open>s.replace(old, new, 1)\<close>: the leftmost occurrence of \<open>old\<close> is replaced; an empty
  \<open>old\<close> matches at position 0.
\<close>

fun replace_first :: "string \<Rightarrow> string \<Rightarrow> string \<Rightarrow> string" where
  "replace_first old new [] = (if old = [] then new else [])"
| "replace_first old new (c # cs) =
     (if startswith (c # cs) old then new @ drop (length old) (c # cs)
      else c # replace_first old new cs)"

text \<open>
  \<^verbatim>\<open>re.sub(r"^_pillar/+", "", s)\<close>: the pattern is anchored at the start of the string, so
  it matches at most once; \<^verbatim>\<open>/+\<close> is greedy and takes every slash that follows
  \<^verbatim>\<open>_pillar\<close>. A string that does not start with \<^verbatim>\<open>_pillar/\<close> is returned as it is.
\<close>

definition re_sub_pillar :: "string \<Rightarrow> string" where
  "re_sub_pillar s =
     (if startswith s ''_pillar/'' then dropWhile (\<lambda>c. c = CHR ''/'') (drop 8 s) else s)"

subsection \<open>Data model\<close>

text \<open>
  \<^verbatim>\<open>__opts__\<close>, the configuration injected by the host. A field is \<^term>\<open>None\<close> when the key
  is absent: \<^verbatim>\<open>__opts__[k]\<close> then raises \<^verbatim>\<open>KeyError\<close> and \<^verbatim>\<open>__opts__.get(k)\<close> gives
  \<^verbatim>\<open>None\<close>.
\<close>

record opts =
  formula_path :: "string option"
  pillar_path :: "string option"
  reactor_path :: "string option"
  spm_module_path :: "string option"
  spm_node_type :: "string option"
  force :: "bool option"

text \<open>
  The module's globals: \<^verbatim>\<open>__opts__\<close> and the constant \<^verbatim>\<open>salt.syspaths.CONFIG_DIR\<close>, whose
  value is fixed by the installation and is a parameter here.
\<close>

record globals =
  opts :: opts
  CONFIG_DIR :: string

text \<open>The connection context and the formula descriptor are dicts from keys to strings.\<close>

type_synonym conn = "string \<rightharpoonup> string"
type_synonym formula = "string \<rightharpoonup> string"

text \<open>An archive member (\<^verbatim>\<open>tarfile.TarInfo\<close>): its \<^verbatim>\<open>name\<close> and what \<^verbatim>\<open>isdir()\<close> answers.\<close>

record member =
  name :: string
  isdir :: bool

subsection \<open>The world: filesystem, log and archive extraction\<close>

text \<open>
  The filesystem is a table from path strings to what is stored there. \<open>faults\<close> holds,
  for a path, the exception that a system call on that path raises (permission denied, an
  I/O error, or whatever a test double is set up to raise). \<open>events\<close> is the ordered record
  of the calls to the logger and of the members handed to the archive's \<^verbatim>\<open>extract\<close>.
\<close>

datatype node = RegFile string | Directory

datatype level = DEBUG | WARNING | ERROR

datatype event =
    Log level string
  | Extract member string

record world =
  nodes :: "string \<rightharpoonup> node"
  faults :: "string \<rightharpoonup> exn"
  events :: "event list"

definition log :: "level \<Rightarrow> string \<Rightarrow> world \<Rightarrow> world" where
  "log lvl msg w = w\<lparr>events := events w @ [Log lvl msg]\<rparr>"

text \<open>\<^verbatim>\<open>formula_tar.extract(member, path)\<close>: the archive is handed one member and a directory.\<close>

definition tar_extract :: "member \<Rightarrow> string \<Rightarrow> world \<Rightarrow> world" where
  "tar_extract m dir w = w\<lparr>events := events w @ [Extract m dir]\<rparr>"

text \<open>\<^verbatim>\<open>os.path.exists\<close>, \<^verbatim>\<open>os.path.isdir\<close>\<close>

definition os_path_exists :: "world \<Rightarrow> string \<Rightarrow> bool" where
  "os_path_exists w p = (nodes w p \<noteq> None)"

definition os_path_isdir :: "world \<Rightarrow> string \<Rightarrow> bool" where
  "os_path_isdir w p = (nodes w p = Some Directory)"

text \<open>\<^verbatim>\<open>os.remove\<close>: unlinks a regular file; a missing path is \<^verbatim>\<open>ENOENT\<close>, a directory
  \<^verbatim>\<open>EISDIR\<close>.\<close>

definition os_remove :: "world \<Rightarrow> string \<Rightarrow> exn + world" where
  "os_remove w p =
     (case faults w p of
        Some e \<Rightarrow> Inl e
      | None \<Rightarrow>
          (case nodes w p of
             None \<Rightarrow> Inl (OSError (Some ENOENT) p)
           | Some Directory \<Rightarrow> Inl (OSError (Some EISDIR) p)
           | Some (RegFile content) \<Rightarrow> Inr (w\<lparr>nodes := (nodes w)(p := None)\<rparr>)))"

text \<open>Opening a path for reading and reading all of it
  (\<^verbatim>\<open>with salt.utils.files.fopen(path, "rb") as f: f.read()\<close>).\<close>

definition fopen_read :: "world \<Rightarrow> string \<Rightarrow> exn + string" where
  "fopen_read w p =
     (case faults w p of
        Some e \<Rightarrow> Inl e
      | None \<Rightarrow>
          (case nodes w p of
             None \<Rightarrow> Inl (OSError (Some ENOENT) p)
           | Some Directory \<Rightarrow> Inl (OSError (Some EISDIR) p)
           | Some (RegFile content) \<Rightarrow> Inr content))"

text \<open>
  \<^verbatim>\<open>os.makedirs\<close>: the directory and each missing ancestor is created; a path that is
  already there is \<^verbatim>\<open>EEXIST\<close>, an ancestor that is a regular file \<^verbatim>\<open>ENOTDIR\<close>. The
  ancestors of a path are its proper prefixes that end before a slash.
\<close>

definition ancestors :: "string \<Rightarrow> string list" where
  "ancestors p = [take i p. i \<leftarrow> [1 ..< length p], p ! i = CHR ''/'']"

fun mkdir_all :: "string list \<Rightarrow> world \<Rightarrow> exn + world" where
  "mkdir_all [] w = Inr w"
| "mkdir_all (d # ds) w =
     (case nodes w d of
        None \<Rightarrow> mkdir_all ds (w\<lparr>nodes := (nodes w)(d \<mapsto> Directory)\<rparr>)
      | Some Directory \<Rightarrow> mkdir_all ds w
      | Some (RegFile content) \<Rightarrow> Inl (OSError (Some ENOTDIR) d))"

definition os_makedirs :: "world \<Rightarrow> string \<Rightarrow> exn + world" where
  "os_makedirs w p =
     (case faults w p of
        Some e \<Rightarrow> Inl e
      | None \<Rightarrow>
          if nodes w p \<noteq> None then Inl (OSError (Some EEXIST) p)
          else mkdir_all (ancestors p @ [p]) w)"

subsection \<open>\<^verbatim>\<open>init\<close>\<close>

text \<open>The loop of \<^verbatim>\<open>init\<close> over the four directories.\<close>

fun init_dirs :: "string list \<Rightarrow> world \<Rightarrow> exn + world" where
  "init_dirs [] w = Inr w"
| "init_dirs (dir # dirs) w =
     (if \<not> os_path_exists w dir
      then (case os_makedirs w dir of Inl e \<Rightarrow> Inl e | Inr w' \<Rightarrow> init_dirs dirs w')
      else init_dirs dirs w)"

definition init :: "globals \<Rightarrow> world \<Rightarrow> exn + (conn \<times> world)" where
  "init g w =
     (case formula_path (opts g) of None \<Rightarrow> Inl (KeyError ''formula_path'') | Some fp \<Rightarrow>
     (case pillar_path (opts g) of None \<Rightarrow> Inl (KeyError ''pillar_path'') | Some pp \<Rightarrow>
     (case reactor_path (opts g) of None \<Rightarrow> Inl (KeyError ''reactor_path'') | Some rp \<Rightarrow>
     (case spm_module_path (opts g) of None \<Rightarrow> Inl (KeyError ''spm_module_path'') | Some mp \<Rightarrow>
     (case init_dirs [fp, pp, rp, mp] w of
        Inl e \<Rightarrow> Inl e
      | Inr w' \<Rightarrow>
          Inr ([''formula_path'' \<mapsto> fp, ''pillar_path'' \<mapsto> pp,
                ''reactor_path'' \<mapsto> rp, ''spm_module_path'' \<mapsto> mp], w'))))))"

text \<open>\<^verbatim>\<open>if conn is None: conn = init()\<close>, the first statement of \<^verbatim>\<open>map_path\<close> and of
  \<^verbatim>\<open>remove_file\<close>.\<close>

definition conn_or_init :: "globals \<Rightarrow> conn option \<Rightarrow> world \<Rightarrow> exn + (conn \<times> world)" where
  "conn_or_init g conn w = (case conn of None \<Rightarrow> init g w | Some c \<Rightarrow> Inr (c, w))"

subsection \<open>\<^verbatim>\<open>map_path\<close>\<close>

text \<open>
  The expression bound to \<^verbatim>\<open>_parent_dir\<close>:
  \<^verbatim>\<open>parent_dir or "{}/".format(formula.get("top_level_dir", formula.get("name", "")))\<close>.
  \<^verbatim>\<open>or\<close> takes the right operand when \<^verbatim>\<open>parent_dir\<close> is \<^verbatim>\<open>None\<close> or the empty string.
\<close>

definition top_level_name :: "formula \<Rightarrow> string" where
  "top_level_name f =
     (case f ''top_level_dir'' of
        Some t \<Rightarrow> t
      | None \<Rightarrow> (case f ''name'' of Some n \<Rightarrow> n | None \<Rightarrow> []))"

definition expected_prefix :: "formula \<Rightarrow> string option \<Rightarrow> string" where
  "expected_prefix f parent_dir =
     (case parent_dir of
        Some p \<Rightarrow> if p \<noteq> [] then p else top_level_name f @ ''/''
      | None \<Rightarrow> top_level_name f @ ''/'')"

text \<open>\<^verbatim>\<open>str(__opts__.get("spm_node_type"))\<close>: an unset role reads as the string \<^verbatim>\<open>None\<close>.\<close>

definition node_type_str :: "globals \<Rightarrow> string" where
  "node_type_str g = (case spm_node_type (opts g) of None \<Rightarrow> ''None'' | Some s \<Rightarrow> s)"

definition node_type_msg :: string where
  "node_type_msg =
     ''Configuration value '' @ [CHR 0x22] @ ''spm_node_type'' @ [CHR 0x22] @ '' is not set''"

definition map_path ::
  "globals \<Rightarrow> string \<Rightarrow> formula \<Rightarrow> string option \<Rightarrow> conn option \<Rightarrow> world
     \<Rightarrow> exn + ((string option \<times> string option) \<times> world)" where
  "map_path g path f parent_dir conn w =
     (case conn_or_init g conn w of
        Inl e \<Rightarrow> Inl e
      | Inr (c, w1) \<Rightarrow>
          let pd = expected_prefix f parent_dir in
          if \<not> startswith path pd then Inr ((None, None), w1)
          else
            let trimmed_path = replace_first pd [] path in
            (case c ''formula_path'' of
              None \<Rightarrow> Inl (KeyError ''formula_path'')
            | Some fp \<Rightarrow>
                if trimmed_path = ''FORMULA'' then Inr ((None, None), w1)
                else if startswith trimmed_path ''_pillar/'' then
                  (case c ''pillar_path'' of
                     None \<Rightarrow> Inl (KeyError ''pillar_path'')
                   | Some pp \<Rightarrow> Inr ((Some pp, Some (re_sub_pillar trimmed_path)), w1))
                else if startswith trimmed_path ''_'' then
                  (if node_type_str g \<notin> set [''master'', ''minion'']
                   then Inr ((None, None), log ERROR node_type_msg w1)
                   else
                     (case c ''spm_module_path'' of
                        None \<Rightarrow> Inl (KeyError ''spm_module_path'')
                      | Some mp \<Rightarrow> Inr ((Some mp, Some (drop 1 trimmed_path)), w1)))
                else if trimmed_path = ''pillar.example'' then
                  (case c ''pillar_path'' of
                     None \<Rightarrow> Inl (KeyError ''pillar_path'')
                   | Some pp \<Rightarrow>
                       (case f ''name'' of
                          None \<Rightarrow> Inl (KeyError ''name'')
                        | Some n \<Rightarrow> Inr ((Some pp, Some (n @ ''.sls.orig'')), w1)))
                else
                  (case f ''name'' of
                     None \<Rightarrow> Inl (KeyError ''name'')
                   | Some n \<Rightarrow>
                       if endswith n ''-conf'' then Inr ((Some (CONFIG_DIR g), Some trimmed_path), w1)
                       else if endswith n ''-reactor'' then
                         (case c ''reactor_path'' of
                            None \<Rightarrow> Inl (KeyError ''reactor_path'')
                          | Some rp \<Rightarrow> Inr ((Some rp, Some trimmed_path), w1))
                       else Inr ((Some fp, Some trimmed_path), w1))))"

subsection \<open>\<^verbatim>\<open>check_existing\<close> and \<^verbatim>\<open>install_file\<close>\<close>

text \<open>
  Both functions test \<^verbatim>\<open>if not base_path or not file_path\<close>. In Python \<^verbatim>\<open>not x\<close> holds
  for \<^verbatim>\<open>None\<close> and for the empty string. \<open>both_truthy\<close> is \<^term>\<open>None\<close> when the test
  holds, and the two strings when it does not.
\<close>

definition py_not :: "string option \<Rightarrow> bool" where
  "py_not x = (case x of None \<Rightarrow> True | Some s \<Rightarrow> s = [])"

definition both_truthy :: "string option \<Rightarrow> string option \<Rightarrow> (string \<times> string) option" where
  "both_truthy base_path file_path =
     (if py_not base_path \<or> py_not file_path then None
      else (case (base_path, file_path) of
              (Some b, Some fl) \<Rightarrow> Some (b, fl)
            | _ \<Rightarrow> None))"

text \<open>\<^verbatim>\<open>os.path.sep.join((base_path, file_path))\<close>, with the POSIX separator.\<close>

definition sep_join :: "string \<Rightarrow> string \<Rightarrow> string" where
  "sep_join base_path file_path = base_path @ ''/'' @ file_path"

text \<open>
  The loop of \<^verbatim>\<open>check_existing\<close> over \<^verbatim>\<open>pkg_files\<close>; \<open>existing_files\<close> is the list
  built so far.
\<close>

fun check_existing_loop ::
  "globals \<Rightarrow> string \<Rightarrow> member list \<Rightarrow> formula \<Rightarrow> conn option \<Rightarrow> string list \<Rightarrow> world
     \<Rightarrow> exn + (string list \<times> world)" where
  "check_existing_loop g package [] formula_def conn existing_files w = Inr (existing_files, w)"
| "check_existing_loop g package (m # ms) formula_def conn existing_files w =
     (if isdir m then check_existing_loop g package ms formula_def conn existing_files w
      else
        let w1 = log DEBUG (''Checking if '' @ package @ '':'' @ name m
                              @ '' is already installed ...'') w in
        (case map_path g (name m) formula_def None conn w1 of
           Inl e \<Rightarrow> Inl e
         | Inr ((base_path, file_path), w2) \<Rightarrow>
             (case both_truthy base_path file_path of
                None \<Rightarrow>
                  check_existing_loop g package ms formula_def conn existing_files
                    (log WARNING (name m @ '' not in top level directory'') w2)
              | Some (b, fl) \<Rightarrow>
                  let new_path = sep_join b fl in
                  if os_path_exists w2 new_path then
                    (case force (opts g) of
                       None \<Rightarrow> Inl (KeyError ''force'')
                     | Some fo \<Rightarrow>
                         check_existing_loop g package ms formula_def conn
                           (existing_files @ [new_path])
                           (if \<not> fo
                            then log ERROR (new_path @ '' already exists, not installing'') w2
                            else w2))
                  else check_existing_loop g package ms formula_def conn existing_files w2)))"

definition check_existing ::
  "globals \<Rightarrow> string \<Rightarrow> member list \<Rightarrow> formula \<Rightarrow> conn option \<Rightarrow> world
     \<Rightarrow> exn + (string list \<times> world)" where
  "check_existing g package pkg_files formula_def conn w =
     check_existing_loop g package pkg_files formula_def conn [] w"

text \<open>
  \<^verbatim>\<open>install_file\<close> returns \<^verbatim>\<open>False\<close> or the base path. It assigns to \<^verbatim>\<open>member.name\<close>, so
  the member is returned with the result.
\<close>

datatype py_result = PyFalse | PyStr string

definition install_file ::
  "globals \<Rightarrow> string \<Rightarrow> member \<Rightarrow> formula \<Rightarrow> conn option \<Rightarrow> world
     \<Rightarrow> exn + ((py_result \<times> member) \<times> world)" where
  "install_file g package m formula_def conn w =
     (if name m = package then Inr ((PyFalse, m), w)
      else
        (case map_path g (name m) formula_def None conn w of
           Inl e \<Rightarrow> Inl e
         | Inr ((base_path, file_path), w1) \<Rightarrow>
             (case both_truthy base_path file_path of
                None \<Rightarrow>
                  Inr ((PyFalse, m),
                       log WARNING (name m @ '' not in top level directory, not installing'') w1)
              | Some (b, fl) \<Rightarrow>
                  let new_path = sep_join b fl;
                      m' = m\<lparr>name := fl\<rparr>;
                      w2 = log DEBUG (''Installing package file '' @ name m' @ '' to '' @ new_path) w1
                  in Inr ((PyStr b, m'), tar_extract m' b w2))))"

subsection \<open>\<^verbatim>\<open>remove_file\<close>\<close>

definition remove_file :: "globals \<Rightarrow> string \<Rightarrow> conn option \<Rightarrow> world \<Rightarrow> exn + world" where
  "remove_file g path conn w =
     (case conn_or_init g conn w of
        Inl e \<Rightarrow> Inl e
      | Inr (c, w1) \<Rightarrow>
          let w2 = log DEBUG (''Removing package file '' @ path) w1 in
          (case os_remove w2 path of
             Inr w3 \<Rightarrow> Inr w3
           | Inl (OSError en msg) \<Rightarrow>
               if Some ENOENT \<noteq> en then Inl (OSError en msg) else Inr w2
           | Inl e \<Rightarrow> Inl e))"

subsection \<open>\<^verbatim>\<open>hash_file\<close>\<close>

text \<open>
  The hash accumulator is the caller's object: its state, \<^verbatim>\<open>update\<close>, which may raise,
  and \<^verbatim>\<open>hexdigest\<close>. \<^verbatim>\<open>hash_file\<close> changes the accumulator, so it is returned with the digest.
  The file is opened in binary mode, so \<^verbatim>\<open>to_bytes\<close> gets bytes and returns them. The
  parameter \<^verbatim>\<open>conn\<close> is never read and is left out.
\<close>

record 'h hashobj =
  h_state :: 'h
  h_update :: "'h \<Rightarrow> string \<Rightarrow> exn + 'h"
  h_hexdigest :: "'h \<Rightarrow> string"

definition hash_body :: "world \<Rightarrow> string \<Rightarrow> 'h hashobj \<Rightarrow> exn + (string \<times> 'h hashobj)" where
  "hash_body w path hashobj =
     (case fopen_read w path of
        Inl e \<Rightarrow> Inl e
      | Inr content \<Rightarrow>
          (case h_update hashobj (h_state hashobj) content of
             Inl e \<Rightarrow> Inl e
           | Inr st \<Rightarrow> Inr (h_hexdigest hashobj st, hashobj\<lparr>h_state := st\<rparr>)))"

definition hash_file :: "world \<Rightarrow> string \<Rightarrow> 'h hashobj \<Rightarrow> exn + (string \<times> 'h hashobj)" where
  "hash_file w path hashobj =
     (if os_path_isdir w path then Inr ([], hashobj)
      else
        (case hash_body w path hashobj of
           Inr r \<Rightarrow> Inr r
         | Inl (OSError en msg) \<Rightarrow>
             if Some ENOENT = en then Inr ([], hashobj) else Inl (OSError en msg)
         | Inl e \<Rightarrow> Inl e))"

subsection \<open>\<^verbatim>\<open>path_exists\<close> and \<^verbatim>\<open>path_isdir\<close>\<close>

definition path_exists :: "world \<Rightarrow> string \<Rightarrow> bool" where
  "path_exists w path = os_path_exists w path"

definition path_isdir :: "world \<Rightarrow> string \<Rightarrow> bool" where
  "path_isdir w path = os_path_isdir w path"

subsection \<open>Sample inputs\<close>

text \<open>
  The connection context, formula and configuration of the specification's scenario, used
  where a theorem is run on a concrete input.
\<close>

definition conn0 :: conn where
  "conn0 = [''formula_path'' \<mapsto> ''/f'', ''pillar_path'' \<mapsto> ''/p'',
            ''reactor_path'' \<mapsto> ''/r'', ''spm_module_path'' \<mapsto> ''/m'']"

definition apache :: formula where
  "apache = [''name'' \<mapsto> ''apache'']"

definition opts_role :: "string option \<Rightarrow> opts" where
  "opts_role role =
     \<lparr>formula_path = Some ''/f'', pillar_path = Some ''/p'', reactor_path = Some ''/r'',
      spm_module_path = Some ''/m'', spm_node_type = role, force = Some False\<rparr>"

definition g_master :: globals where
  "g_master = \<lparr>opts = opts_role (Some ''master''), CONFIG_DIR = ''/etc/salt''\<rparr>"

definition g_unset :: globals where
  "g_unset = \<lparr>opts = opts_role None, CONFIG_DIR = ''/etc/salt''\<rparr>"

definition world0 :: world where
  "world0 = \<lparr>nodes = Map.empty, faults = Map.empty, events = []\<rparr>"

text \<open>The empty filesystem after \<^verbatim>\<open>init\<close> has created the four directories.\<close>

definition world_init :: world where
  "world_init =
     world0\<lparr>nodes := [''/f'' \<mapsto> Directory, ''/p'' \<mapsto> Directory,
                       ''/r'' \<mapsto> Directory, ''/m'' \<mapsto> Directory]\<rparr>"

definition g_forced :: globals where
  "g_forced =
     \<lparr>opts = (opts_role (Some ''master''))\<lparr>force := Some True\<rparr>, CONFIG_DIR = ''/etc/salt''\<rparr>"

definition world1 :: world where
  "world1 =
     \<lparr>nodes = [''/srv'' \<mapsto> Directory, ''/srv/x'' \<mapsto> RegFile ''text'',
               ''/srv/locked'' \<mapsto> RegFile ''secret''],
      faults = [''/srv/locked'' \<mapsto> OSError (Some EACCES) ''Permission denied''],
      events = []\<rparr>"

text \<open>A toy accumulator: it collects the bytes, and its digest is their reversal.\<close>

definition toy_hash :: "string hashobj" where
  "toy_hash = \<lparr>h_state = [], h_update = (\<lambda>st bytes. Inr (st @ bytes)), h_hexdigest = rev\<rparr>"

definition world2 :: world where
  "world2 =
     \<lparr>nodes = [''/f'' \<mapsto> Directory, ''/f/README'' \<mapsto> RegFile ''old'',
               ''/m'' \<mapsto> Directory, ''/m/'' \<mapsto> Directory],
      faults = Map.empty,
      events = []\<rparr>"

subsection \<open>Notions used to state the properties\<close>

text \<open>The members handed to the archive's \<^verbatim>\<open>extract\<close> so far, with their target directories.\<close>

fun extraction_of :: "event \<Rightarrow> (member \<times> string) list" where
  "extraction_of (Extract m dir) = [(m, dir)]"
| "extraction_of (Log lvl msg) = []"

definition extractions :: "world \<Rightarrow> (member \<times> string) list" where
  "extractions w = concat (map extraction_of (events w))"

text \<open>
  What \<^verbatim>\<open>map_path\<close> returns for a member under a given connection context, and the log
  entries it makes on the way. Neither depends on the filesystem.
\<close>

definition mapping_of ::
  "globals \<Rightarrow> formula \<Rightarrow> conn \<Rightarrow> member
     \<Rightarrow> exn + ((string option \<times> string option) \<times> event list)" where
  "mapping_of g formula_def c m =
     (case map_path g (name m) formula_def None (Some c) world0 of
        Inl e \<Rightarrow> Inl e
      | Inr (r, w) \<Rightarrow> Inr (r, events w))"

text \<open>
  The conflict a member contributes to the result of \<^verbatim>\<open>check_existing\<close>: the member is
  not a directory, it maps to a base and a relative path that are both there and not
  empty, and the joined path exists.
\<close>

definition existing_path ::
  "globals \<Rightarrow> formula \<Rightarrow> conn \<Rightarrow> world \<Rightarrow> member \<Rightarrow> string list" where
  "existing_path g formula_def c w m =
     (if isdir m then []
      else
        (case mapping_of g formula_def c m of
           Inr ((Some b, Some fl), es) \<Rightarrow>
             if b \<noteq> [] \<and> fl \<noteq> [] \<and> os_path_exists w (sep_join b fl)
             then [sep_join b fl] else []
         | _ \<Rightarrow> []))"

text \<open>The log entries \<^verbatim>\<open>check_existing\<close> makes for a member.\<close>

definition member_events ::
  "globals \<Rightarrow> string \<Rightarrow> formula \<Rightarrow> conn \<Rightarrow> world \<Rightarrow> member \<Rightarrow> event list" where
  "member_events g package formula_def c w m =
     (if isdir m then []
      else
        Log DEBUG (''Checking if '' @ package @ '':'' @ name m @ '' is already installed ...'') #
        (case mapping_of g formula_def c m of
           Inl e \<Rightarrow> []
         | Inr ((bp, fp), es) \<Rightarrow>
             es @
             (if bp = None \<or> bp = Some [] \<or> fp = None \<or> fp = Some []
              then [Log WARNING (name m @ '' not in top level directory'')]
              else if force (opts g) = Some False
              then map (\<lambda>p. Log ERROR (p @ '' already exists, not installing''))
                     (existing_path g formula_def c w m)
              else [])))"

section \<open>Properties\<close>

subsection \<open>The string operations\<close>

lemma startswith_iff: "startswith s p \<longleftrightarrow> (\<exists>r. s = p @ r)"
  by (induction s p rule: startswith.induct) auto

lemma startswith_append [simp]: "startswith (p @ r) p"
  by (simp add: startswith_iff)

lemma endswith_iff: "endswith s p \<longleftrightarrow> (\<exists>r. s = r @ p)"
proof -
  have "(\<exists>r. rev s = rev p @ r) \<longleftrightarrow> (\<exists>r. s = r @ p)"
  proof
    assume "\<exists>r. rev s = rev p @ r"
    then obtain r where "rev s = rev p @ r" ..
    then have "rev (rev s) = rev (rev p @ r)" by simp
    then have "s = rev r @ p" by simp
    then show "\<exists>r. s = r @ p" ..
  next
    assume "\<exists>r. s = r @ p"
    then obtain r where "s = r @ p" ..
    then have "rev s = rev p @ rev r" by simp
    then show "\<exists>r. rev s = rev p @ r" ..
  qed
  then show ?thesis by (simp add: endswith_def startswith_iff)
qed

lemma replace_first_startswith:
  "startswith s old \<Longrightarrow> replace_first old new s = new @ drop (length old) s"
  by (cases s) (auto simp: startswith_iff)

lemma replace_first_append [simp]: "replace_first p [] (p @ r) = r"
  by (simp add: replace_first_startswith)

lemma expected_prefix_nonempty: "expected_prefix f parent_dir \<noteq> []"
  by (simp add: expected_prefix_def split: option.splits)

lemma re_sub_pillar_append:
  "re_sub_pillar (''_pillar/'' @ r) = dropWhile (\<lambda>c. c = CHR ''/'') r"
  by (simp add: re_sub_pillar_def)

lemma map_path_outside:
  assumes "conn_or_init g conn w = Inr (c, w1)"
    and "\<not> startswith path (expected_prefix f parent_dir)"
  shows "map_path g path f parent_dir conn w = Inr ((None, None), w1)"
  using assms by (simp add: map_path_def)

lemma map_path_init_error:
  "conn_or_init g conn w = Inl e \<Longrightarrow> map_path g path f parent_dir conn w = Inl e"
  by (simp add: map_path_def)

lemma map_path_no_formula_path:
  assumes "conn_or_init g conn w = Inr (c, w1)"
    and "startswith path (expected_prefix f parent_dir)"
    and "c ''formula_path'' = None"
  shows "map_path g path f parent_dir conn w = Inl (KeyError ''formula_path'')"
  using assms by (simp add: map_path_def)

lemma conn_or_init_Some [simp]: "conn_or_init g (Some c) w = Inr (c, w)"
  by (simp add: conn_or_init_def)

lemma conn_or_init_world0:
  "conn_or_init g_master None world0 = Inr (conn0, world_init)"
  by (simp add: conn_or_init_def init_def g_master_def opts_role_def os_path_exists_def
      os_makedirs_def ancestors_def upt_rec world0_def world_init_def conn0_def)

lemma startswith_apache [simp]: "startswith (''apache/'' @ r) ''apache/''"
  using startswith_append [of "''apache/''" r] .

lemma prefix_apache [simp]: "expected_prefix apache None = ''apache/''"
  by (simp add: expected_prefix_def top_level_name_def apache_def)

subsection \<open>The path mapper\<close>

text \<open>
  Claim C1. The expected prefix is \<^verbatim>\<open>parent_dir\<close> when it is given and not empty, and
  otherwise the formula's \<^verbatim>\<open>top_level_dir\<close> (or, without that key, its \<^verbatim>\<open>name\<close>)
  followed by a slash. Whenever the connection context is available, a member path that
  does not start with the prefix maps to \<open>(None, None)\<close>, and so does a member path whose
  remainder after the prefix is \<^verbatim>\<open>FORMULA\<close>, for every formula and every configuration. The
  manifest rule is reached after \<^verbatim>\<open>conn["formula_path"]\<close> has been read, so the key must be
  there.
\<close>

theorem map_path_prefix_and_manifest:
  assumes "conn_or_init g conn w = Inr (c, w1)"
  shows "(\<forall>p. parent_dir = Some p \<and> p \<noteq> [] \<longrightarrow> expected_prefix f parent_dir = p)
    \<and> (parent_dir = None \<or> parent_dir = Some [] \<longrightarrow>
          expected_prefix f parent_dir =
            (case f ''top_level_dir'' of
               Some t \<Rightarrow> t
             | None \<Rightarrow> (case f ''name'' of Some n \<Rightarrow> n | None \<Rightarrow> [])) @ ''/'')
    \<and> (\<not> startswith path (expected_prefix f parent_dir) \<longrightarrow>
          map_path g path f parent_dir conn w = Inr ((None, None), w1))
    \<and> (startswith path (expected_prefix f parent_dir)
          \<and> replace_first (expected_prefix f parent_dir) [] path = ''FORMULA''
          \<and> c ''formula_path'' \<noteq> None \<longrightarrow>
          map_path g path f parent_dir conn w = Inr ((None, None), w1))"
proof -
  have a: "\<forall>p. parent_dir = Some p \<and> p \<noteq> [] \<longrightarrow> expected_prefix f parent_dir = p"
    by (simp add: expected_prefix_def)
  have b: "parent_dir = None \<or> parent_dir = Some [] \<longrightarrow>
          expected_prefix f parent_dir =
            (case f ''top_level_dir'' of
               Some t \<Rightarrow> t
             | None \<Rightarrow> (case f ''name'' of Some n \<Rightarrow> n | None \<Rightarrow> [])) @ ''/''"
    by (auto simp: expected_prefix_def top_level_name_def)
  have c: "\<not> startswith path (expected_prefix f parent_dir) \<longrightarrow>
          map_path g path f parent_dir conn w = Inr ((None, None), w1)"
    using assms by (simp add: map_path_outside)
  have d: "startswith path (expected_prefix f parent_dir)
          \<and> replace_first (expected_prefix f parent_dir) [] path = ''FORMULA''
          \<and> c ''formula_path'' \<noteq> None \<longrightarrow>
          map_path g path f parent_dir conn w = Inr ((None, None), w1)"
    using assms by (auto simp: map_path_def)
  from a b c d show ?thesis by blast
qed

theorem map_path_prefix_and_manifest_witness:
  "map_path g_master ''nginx/README'' apache None (Some conn0) world0 = Inr ((None, None), world0)
   \<and> map_path g_unset ''apache/FORMULA'' apache None (Some conn0) world0
       = Inr ((None, None), world0)
   \<and> expected_prefix apache (Some ''pkg/'') = ''pkg/''
   \<and> expected_prefix [''name'' \<mapsto> ''apache'', ''top_level_dir'' \<mapsto> ''httpd''] (Some [])
       = ''httpd/''"
proof -
  have h: "conn_or_init g (Some conn0) world0 = Inr (conn0, world0)" for g
    by simp
  have k: "conn0 ''formula_path'' \<noteq> None"
    by (simp add: conn0_def)
  have a: "map_path g_master ''nginx/README'' apache None (Some conn0) world0
             = Inr ((None, None), world0)"
    using map_path_prefix_and_manifest [OF h, where path = "''nginx/README''"
        and f = apache and parent_dir = None and g = g_master]
    by simp
  have b: "map_path g_unset ''apache/FORMULA'' apache None (Some conn0) world0
             = Inr ((None, None), world0)"
    using k map_path_prefix_and_manifest [OF h, where path = "''apache/FORMULA''"
        and f = apache and parent_dir = None and g = g_unset]
    by simp
  have c: "expected_prefix apache (Some ''pkg/'') = ''pkg/''"
    using map_path_prefix_and_manifest [OF h, where f = apache and parent_dir = "Some ''pkg/''"]
    by simp
  have d: "expected_prefix [''name'' \<mapsto> ''apache'', ''top_level_dir'' \<mapsto> ''httpd''] (Some [])
             = ''httpd/''"
    using map_path_prefix_and_manifest [OF h,
        where f = "[''name'' \<mapsto> ''apache'', ''top_level_dir'' \<mapsto> ''httpd'']"
        and parent_dir = "Some []"]
    by simp
  from a b c d show ?thesis by blast
qed

text \<open>
  Claim C2. When the remainder after the prefix is \<^verbatim>\<open>_pillar/\<close> followed by \<open>r\<close>, the base
  is the connection context's pillar directory and the relative path is \<open>r\<close> without its
  leading slashes; the remainder \<^verbatim>\<open>_pillar/x/y.sls\<close> gives \<^verbatim>\<open>x/y.sls\<close>.
\<close>

theorem map_path_pillar:
  assumes "conn_or_init g conn w = Inr (c, w1)"
    and "startswith path (expected_prefix f parent_dir)"
    and "replace_first (expected_prefix f parent_dir) [] path = ''_pillar/'' @ r"
    and "c ''formula_path'' \<noteq> None"
    and "c ''pillar_path'' = Some pp"
  shows "map_path g path f parent_dir conn w =
           Inr ((Some pp, Some (dropWhile (\<lambda>x. x = CHR ''/'') r)), w1)
    \<and> (r = ''x/y.sls'' \<longrightarrow>
          map_path g path f parent_dir conn w = Inr ((Some pp, Some ''x/y.sls''), w1))"
proof -
  have "map_path g path f parent_dir conn w =
           Inr ((Some pp, Some (dropWhile (\<lambda>x. x = CHR ''/'') r)), w1)"
    using assms by (auto simp: map_path_def Let_def re_sub_pillar_def)
  then show ?thesis by auto
qed

theorem map_path_pillar_witness:
  "map_path g_unset ''apache/_pillar/x/y.sls'' apache None (Some conn0) world0
     = Inr ((Some ''/p'', Some ''x/y.sls''), world0)
   \<and> map_path g_unset ''apache/_pillar///x.sls'' apache None (Some conn0) world0
     = Inr ((Some ''/p'', Some ''x.sls''), world0)
   \<and> map_path g_master ''apache/_pillar/x.sls'' apache None None world0
     = Inr ((Some ''/p'', Some ''x.sls''), world_init)"
proof -
  have h: "conn_or_init g_unset (Some conn0) world0 = Inr (conn0, world0)"
    by simp
  have k: "conn0 ''formula_path'' \<noteq> None" "conn0 ''pillar_path'' = Some ''/p''"
    by (simp_all add: conn0_def)
  have a: "map_path g_unset ''apache/_pillar/x/y.sls'' apache None (Some conn0) world0
     = Inr ((Some ''/p'', Some ''x/y.sls''), world0)"
    using map_path_pillar [OF h, where path = "''apache/_pillar/x/y.sls''" and f = apache
        and parent_dir = None and r = "''x/y.sls''" and pp = "''/p''"] k
    by simp
  have b: "map_path g_unset ''apache/_pillar///x.sls'' apache None (Some conn0) world0
     = Inr ((Some ''/p'', Some ''x.sls''), world0)"
    using map_path_pillar [OF h, where path = "''apache/_pillar///x.sls''" and f = apache
        and parent_dir = None and r = "''//x.sls''" and pp = "''/p''"] k
    by simp
  have c: "map_path g_master ''apache/_pillar/x.sls'' apache None None world0
     = Inr ((Some ''/p'', Some ''x.sls''), world_init)"
    using map_path_pillar [OF conn_or_init_world0, where path = "''apache/_pillar/x.sls''"
        and f = apache and parent_dir = None and r = "''x.sls''" and pp = "''/p''"] k
    by simp
  from a b c show ?thesis by blast
qed

text \<open>
  Claim C3. When the remainder after the prefix starts with an underscore but not with
  \<^verbatim>\<open>_pillar/\<close>: with the node role \<^verbatim>\<open>master\<close> or \<^verbatim>\<open>minion\<close> the result is the module
  directory of the connection context and the remainder without its first character; with
  any other role, or none, the call returns \<open>(None, None)\<close>, the only effect being one
  error entry in the log. No exception is raised in either case.
\<close>

theorem map_path_module:
  assumes "conn_or_init g conn w = Inr (c, w1)"
    and "startswith path (expected_prefix f parent_dir)"
    and "replace_first (expected_prefix f parent_dir) [] path = t"
    and "startswith t ''_''"
    and "\<not> startswith t ''_pillar/''"
    and "c ''formula_path'' \<noteq> None"
  shows "((spm_node_type (opts g) = Some ''master'' \<or> spm_node_type (opts g) = Some ''minion'')
            \<and> c ''spm_module_path'' = Some mp \<longrightarrow>
          map_path g path f parent_dir conn w = Inr ((Some mp, Some (drop 1 t)), w1))
    \<and> (spm_node_type (opts g) \<noteq> Some ''master'' \<and> spm_node_type (opts g) \<noteq> Some ''minion'' \<longrightarrow>
          map_path g path f parent_dir conn w = Inr ((None, None), log ERROR node_type_msg w1))"
proof -
  have nf: "t \<noteq> ''FORMULA''"
    using assms(4) by auto
  have a: "(spm_node_type (opts g) = Some ''master'' \<or> spm_node_type (opts g) = Some ''minion'')
            \<and> c ''spm_module_path'' = Some mp \<longrightarrow>
          map_path g path f parent_dir conn w = Inr ((Some mp, Some (drop 1 t)), w1)"
    using assms nf by (auto simp: map_path_def Let_def node_type_str_def)
  have b: "spm_node_type (opts g) \<noteq> Some ''master'' \<and> spm_node_type (opts g) \<noteq> Some ''minion'' \<longrightarrow>
          map_path g path f parent_dir conn w = Inr ((None, None), log ERROR node_type_msg w1)"
    using assms nf by (auto simp: map_path_def Let_def node_type_str_def split: option.splits)
  from a b show ?thesis by blast
qed

theorem map_path_module_witness:
  "map_path g_master ''apache/_modname/file.py'' apache None (Some conn0) world0
     = Inr ((Some ''/m'', Some ''modname/file.py''), world0)
   \<and> map_path g_unset ''apache/_modname/file.py'' apache None (Some conn0) world0
     = Inr ((None, None), log ERROR node_type_msg world0)"
proof -
  have h: "conn_or_init g (Some conn0) world0 = Inr (conn0, world0)" for g
    by simp
  have k: "conn0 ''formula_path'' \<noteq> None" "conn0 ''spm_module_path'' = Some ''/m''"
    by (simp_all add: conn0_def)
  have a: "map_path g_master ''apache/_modname/file.py'' apache None (Some conn0) world0
     = Inr ((Some ''/m'', Some ''modname/file.py''), world0)"
    using map_path_module [OF h, where path = "''apache/_modname/file.py''" and f = apache
        and parent_dir = None and t = "''_modname/file.py''" and g = g_master
        and mp = "''/m''"] k
    by (simp add: g_master_def opts_role_def)
  have b: "map_path g_unset ''apache/_modname/file.py'' apache None (Some conn0) world0
     = Inr ((None, None), log ERROR node_type_msg world0)"
    using map_path_module [OF h, where path = "''apache/_modname/file.py''" and f = apache
        and parent_dir = None and t = "''_modname/file.py''" and g = g_unset] k
    by (simp add: g_unset_def opts_role_def)
  from a b show ?thesis by blast
qed

text \<open>
  Claim C4. For a remainder \<open>t\<close> that is not \<^verbatim>\<open>FORMULA\<close> and does not start with an
  underscore (which also excludes \<^verbatim>\<open>_pillar/\<close>), the rules apply in this order:
  \<^verbatim>\<open>pillar.example\<close> maps to the pillar directory and \<^verbatim>\<open><name>.sls.orig\<close>; else a formula
  name ending in \<^verbatim>\<open>-conf\<close> maps to \<^verbatim>\<open>CONFIG_DIR\<close> and \<open>t\<close>; else a name ending in
  \<^verbatim>\<open>-reactor\<close> maps to the reactor directory and \<open>t\<close>; else to the formula directory and
  \<open>t\<close>. A formula named \<^verbatim>\<open>*-conf\<close> with a remainder under \<^verbatim>\<open>_pillar/\<close> still goes to the
  pillar directory. The formula has a \<^verbatim>\<open>name\<close>, which these rules read.
\<close>

theorem map_path_ordinary:
  assumes "conn_or_init g conn w = Inr (c, w1)"
    and "startswith path (expected_prefix f parent_dir)"
    and "replace_first (expected_prefix f parent_dir) [] path = t"
    and "c ''formula_path'' = Some fp"
    and "f ''name'' = Some n"
  shows "(t = ''pillar.example'' \<and> c ''pillar_path'' = Some pp \<longrightarrow>
          map_path g path f parent_dir conn w = Inr ((Some pp, Some (n @ ''.sls.orig'')), w1))
    \<and> (t \<noteq> ''FORMULA'' \<and> \<not> startswith t ''_'' \<and> t \<noteq> ''pillar.example''
          \<and> endswith n ''-conf'' \<longrightarrow>
          map_path g path f parent_dir conn w = Inr ((Some (CONFIG_DIR g), Some t), w1))
    \<and> (t \<noteq> ''FORMULA'' \<and> \<not> startswith t ''_'' \<and> t \<noteq> ''pillar.example''
          \<and> \<not> endswith n ''-conf'' \<and> endswith n ''-reactor''
          \<and> c ''reactor_path'' = Some rp \<longrightarrow>
          map_path g path f parent_dir conn w = Inr ((Some rp, Some t), w1))
    \<and> (t \<noteq> ''FORMULA'' \<and> \<not> startswith t ''_'' \<and> t \<noteq> ''pillar.example''
          \<and> \<not> endswith n ''-conf'' \<and> \<not> endswith n ''-reactor'' \<longrightarrow>
          map_path g path f parent_dir conn w = Inr ((Some fp, Some t), w1))
    \<and> (endswith n ''-conf'' \<and> t = ''_pillar/'' @ r \<and> c ''pillar_path'' = Some pp \<longrightarrow>
          map_path g path f parent_dir conn w =
            Inr ((Some pp, Some (dropWhile (\<lambda>x. x = CHR ''/'') r)), w1))"
proof -
  have u: "\<not> startswith t ''_'' \<Longrightarrow> \<not> startswith t ''_pillar/''"
    by (auto simp: startswith_iff)
  have a: "t = ''pillar.example'' \<and> c ''pillar_path'' = Some pp \<longrightarrow>
          map_path g path f parent_dir conn w = Inr ((Some pp, Some (n @ ''.sls.orig'')), w1)"
    using assms by (auto simp: map_path_def Let_def)
  have b: "t \<noteq> ''FORMULA'' \<and> \<not> startswith t ''_'' \<and> t \<noteq> ''pillar.example''
          \<and> endswith n ''-conf'' \<longrightarrow>
          map_path g path f parent_dir conn w = Inr ((Some (CONFIG_DIR g), Some t), w1)"
    using assms u by (auto simp: map_path_def Let_def)
  have c: "t \<noteq> ''FORMULA'' \<and> \<not> startswith t ''_'' \<and> t \<noteq> ''pillar.example''
          \<and> \<not> endswith n ''-conf'' \<and> endswith n ''-reactor''
          \<and> c ''reactor_path'' = Some rp \<longrightarrow>
          map_path g path f parent_dir conn w = Inr ((Some rp, Some t), w1)"
    using assms u by (auto simp: map_path_def Let_def)
  have d: "t \<noteq> ''FORMULA'' \<and> \<not> startswith t ''_'' \<and> t \<noteq> ''pillar.example''
          \<and> \<not> endswith n ''-conf'' \<and> \<not> endswith n ''-reactor'' \<longrightarrow>
          map_path g path f parent_dir conn w = Inr ((Some fp, Some t), w1)"
    using assms u by (auto simp: map_path_def Let_def)
  have e: "endswith n ''-conf'' \<and> t = ''_pillar/'' @ r \<and> c ''pillar_path'' = Some pp \<longrightarrow>
          map_path g path f parent_dir conn w =
            Inr ((Some pp, Some (dropWhile (\<lambda>x. x = CHR ''/'') r)), w1)"
    using assms by (auto simp: map_path_def Let_def re_sub_pillar_def)
  from a b c d e show ?thesis by blast
qed

theorem map_path_ordinary_witness:
  "map_path g_master ''apache/pillar.example'' apache None (Some conn0) world0
     = Inr ((Some ''/p'', Some ''apache.sls.orig''), world0)
   \<and> map_path g_master ''salt-conf/minion.d/x.conf'' [''name'' \<mapsto> ''salt-conf''] None
        (Some conn0) world0
     = Inr ((Some ''/etc/salt'', Some ''minion.d/x.conf''), world0)
   \<and> map_path g_master ''deploy-reactor/r.sls'' [''name'' \<mapsto> ''deploy-reactor''] None
        (Some conn0) world0
     = Inr ((Some ''/r'', Some ''r.sls''), world0)
   \<and> map_path g_master ''apache/README'' apache None (Some conn0) world0
     = Inr ((Some ''/f'', Some ''README''), world0)
   \<and> map_path g_master ''salt-conf/_pillar/x.sls'' [''name'' \<mapsto> ''salt-conf''] None
        (Some conn0) world0
     = Inr ((Some ''/p'', Some ''x.sls''), world0)"
proof -
  have h: "conn_or_init g_master (Some conn0) world0 = Inr (conn0, world0)"
    by simp
  have k: "conn0 ''formula_path'' = Some ''/f''" "conn0 ''pillar_path'' = Some ''/p''"
    "conn0 ''reactor_path'' = Some ''/r''"
    by (simp_all add: conn0_def)
  have n: "apache ''name'' = Some ''apache''"
    by (simp add: apache_def)
  have pc: "expected_prefix [''name'' \<mapsto> ''salt-conf''] None = ''salt-conf/''"
    by (simp add: expected_prefix_def top_level_name_def)
  have pr: "expected_prefix [''name'' \<mapsto> ''deploy-reactor''] None = ''deploy-reactor/''"
    by (simp add: expected_prefix_def top_level_name_def)
  have a: "map_path g_master ''apache/pillar.example'' apache None (Some conn0) world0
     = Inr ((Some ''/p'', Some ''apache.sls.orig''), world0)"
    using map_path_ordinary [OF h, where path = "''apache/pillar.example''" and f = apache
        and n = "''apache''" and fp = "''/f''"
        and parent_dir = None and t = "''pillar.example''" and pp = "''/p''"] k n
    by simp
  have b: "map_path g_master ''salt-conf/minion.d/x.conf'' [''name'' \<mapsto> ''salt-conf''] None
        (Some conn0) world0
     = Inr ((Some ''/etc/salt'', Some ''minion.d/x.conf''), world0)"
    using map_path_ordinary [OF h, where path = "''salt-conf/minion.d/x.conf''" and fp = "''/f''"
        and f = "[''name'' \<mapsto> ''salt-conf'']" and n = "''salt-conf''"
        and parent_dir = None and t = "''minion.d/x.conf''"] pc k
    by (simp add: endswith_def g_master_def)
  have c: "map_path g_master ''deploy-reactor/r.sls'' [''name'' \<mapsto> ''deploy-reactor''] None
        (Some conn0) world0
     = Inr ((Some ''/r'', Some ''r.sls''), world0)"
    using map_path_ordinary [OF h, where path = "''deploy-reactor/r.sls''" and fp = "''/f''"
        and f = "[''name'' \<mapsto> ''deploy-reactor'']" and n = "''deploy-reactor''"
        and parent_dir = None and t = "''r.sls''" and rp = "''/r''"] pr k
    by (simp add: endswith_def)
  have d: "map_path g_master ''apache/README'' apache None (Some conn0) world0
     = Inr ((Some ''/f'', Some ''README''), world0)"
    using map_path_ordinary [OF h, where path = "''apache/README''" and f = apache
        and n = "''apache''" and fp = "''/f''" and parent_dir = None and t = "''README''"] k n
    by (simp add: endswith_def)
  have e: "map_path g_master ''salt-conf/_pillar/x.sls'' [''name'' \<mapsto> ''salt-conf''] None
        (Some conn0) world0
     = Inr ((Some ''/p'', Some ''x.sls''), world0)"
    using map_path_ordinary [OF h, where path = "''salt-conf/_pillar/x.sls''" and fp = "''/f''"
        and f = "[''name'' \<mapsto> ''salt-conf'']" and n = "''salt-conf''"
        and parent_dir = None and t = "''_pillar/x.sls''" and r = "''x.sls''"
        and pp = "''/p''"] pc k
    by (simp add: endswith_def)
  from a b c d e show ?thesis by blast
qed

text \<open>
  Claim C10. When the remainder after the prefix is exactly \<^verbatim>\<open>_pillar\<close>, without a slash,
  the module rule decides: with the role \<^verbatim>\<open>master\<close> or \<^verbatim>\<open>minion\<close> the result is the module
  directory and \<^verbatim>\<open>pillar\<close>; with any other role, or none, it is \<open>(None, None)\<close>.
\<close>

theorem map_path_bare_pillar:
  assumes "conn_or_init g conn w = Inr (c, w1)"
    and "startswith path (expected_prefix f parent_dir)"
    and "replace_first (expected_prefix f parent_dir) [] path = ''_pillar''"
    and "c ''formula_path'' \<noteq> None"
  shows "((spm_node_type (opts g) = Some ''master'' \<or> spm_node_type (opts g) = Some ''minion'')
            \<and> c ''spm_module_path'' = Some mp \<longrightarrow>
          map_path g path f parent_dir conn w = Inr ((Some mp, Some ''pillar''), w1))
    \<and> (spm_node_type (opts g) \<noteq> Some ''master'' \<and> spm_node_type (opts g) \<noteq> Some ''minion'' \<longrightarrow>
          map_path g path f parent_dir conn w = Inr ((None, None), log ERROR node_type_msg w1))"
proof -
  have a: "(spm_node_type (opts g) = Some ''master'' \<or> spm_node_type (opts g) = Some ''minion'')
            \<and> c ''spm_module_path'' = Some mp \<longrightarrow>
          map_path g path f parent_dir conn w = Inr ((Some mp, Some ''pillar''), w1)"
    using assms by (auto simp: map_path_def Let_def node_type_str_def)
  have b: "spm_node_type (opts g) \<noteq> Some ''master'' \<and> spm_node_type (opts g) \<noteq> Some ''minion'' \<longrightarrow>
          map_path g path f parent_dir conn w = Inr ((None, None), log ERROR node_type_msg w1)"
    using assms by (auto simp: map_path_def Let_def node_type_str_def split: option.splits)
  from a b show ?thesis by blast
qed

theorem map_path_bare_pillar_witness:
  "map_path g_master ''apache/_pillar'' apache None (Some conn0) world0
     = Inr ((Some ''/m'', Some ''pillar''), world0)
   \<and> map_path g_unset ''apache/_pillar'' apache None (Some conn0) world0
     = Inr ((None, None), log ERROR node_type_msg world0)"
proof -
  have h: "conn_or_init g (Some conn0) world0 = Inr (conn0, world0)" for g
    by simp
  have k: "conn0 ''formula_path'' \<noteq> None" "conn0 ''spm_module_path'' = Some ''/m''"
    by (simp_all add: conn0_def)
  have a: "map_path g_master ''apache/_pillar'' apache None (Some conn0) world0
     = Inr ((Some ''/m'', Some ''pillar''), world0)"
    using map_path_bare_pillar [OF h, where path = "''apache/_pillar''" and f = apache
        and parent_dir = None and g = g_master and mp = "''/m''"] k
    by (simp add: g_master_def opts_role_def)
  have b: "map_path g_unset ''apache/_pillar'' apache None (Some conn0) world0
     = Inr ((None, None), log ERROR node_type_msg world0)"
    using map_path_bare_pillar [OF h, where path = "''apache/_pillar''" and f = apache
        and parent_dir = None and g = g_unset] k
    by (simp add: g_unset_def opts_role_def)
  from a b show ?thesis by blast
qed

text \<open>
  Claim C7. Whenever \<^verbatim>\<open>map_path\<close> returns a pair, either both components are \<^verbatim>\<open>None\<close> or
  neither is.
\<close>

theorem map_path_all_or_nothing:
  assumes "map_path g path f parent_dir conn w = Inr ((base_path, file_path), w')"
  shows "(base_path = None \<and> file_path = None) \<or> (base_path \<noteq> None \<and> file_path \<noteq> None)"
  using assms
  by (auto simp: map_path_def Let_def split: sum.splits option.splits if_splits prod.splits)

lemma map_path_apache_readme:
  "map_path g ''apache/README'' apache None (Some conn0) w
     = Inr ((Some ''/f'', Some ''README''), w)"
  by (simp add: map_path_def Let_def conn0_def apache_def endswith_def expected_prefix_def
      top_level_name_def g_master_def opts_role_def node_type_str_def)

lemma map_path_apache_formula:
  "map_path g ''apache/FORMULA'' apache None (Some conn0) w
     = Inr ((None, None), w)"
  by (simp add: map_path_def Let_def conn0_def)

theorem map_path_all_or_nothing_witness:
  "map_path g_master ''apache/README'' apache None (Some conn0) world0
     = Inr ((Some ''/f'', Some ''README''), world0)
   \<and> ((Some ''/f'' = None \<and> Some ''README'' = None)
        \<or> (Some ''/f'' \<noteq> None \<and> Some ''README'' \<noteq> None))
   \<and> map_path g_master ''apache/FORMULA'' apache None (Some conn0) world0
     = Inr ((None, None), world0)
   \<and> (((None :: string option) = None \<and> (None :: string option) = None)
        \<or> ((None :: string option) \<noteq> None \<and> (None :: string option) \<noteq> None))"
  using map_path_apache_readme [of g_master world0]
    map_path_apache_formula [of g_master world0]
    map_path_all_or_nothing [OF map_path_apache_readme [of g_master world0]]
    map_path_all_or_nothing [OF map_path_apache_formula [of g_master world0]]
  by blast

subsection \<open>The content hasher\<close>

lemma fopen_read_missing:
  "\<not> os_path_exists w path \<Longrightarrow> faults w path = None \<Longrightarrow>
     fopen_read w path = Inl (OSError (Some ENOENT) path)"
  by (simp add: fopen_read_def os_path_exists_def)

lemma fopen_read_content:
  "fopen_read w path = Inr content \<longleftrightarrow>
     faults w path = None \<and> nodes w path = Some (RegFile content)"
  by (auto simp: fopen_read_def split: option.splits node.splits)

text \<open>
  Claim C8. \<^verbatim>\<open>hash_file\<close> returns the empty string for a directory and for a path that
  does not exist (opening it fails with \<^verbatim>\<open>ENOENT\<close>); an \<^verbatim>\<open>OSError\<close> of the read with any
  other \<^verbatim>\<open>errno\<close> comes back as it was raised; otherwise, when the accumulator takes the
  bytes, the whole content is fed to it and the result is its digest. The digest depends
  on the content and the accumulator only: two readable files with the same content hash
  alike.
\<close>

theorem hash_file_cases:
  "(os_path_isdir w path \<longrightarrow> hash_file w path h = Inr ([], h))
   \<and> (\<not> os_path_exists w path \<and> faults w path = None \<longrightarrow> hash_file w path h = Inr ([], h))
   \<and> (\<not> os_path_isdir w path \<and> fopen_read w path = Inl (OSError (Some ENOENT) msg) \<longrightarrow>
         hash_file w path h = Inr ([], h))
   \<and> (\<not> os_path_isdir w path \<and> fopen_read w path = Inl (OSError en msg)
         \<and> en \<noteq> Some ENOENT \<longrightarrow>
         hash_file w path h = Inl (OSError en msg))
   \<and> (\<not> os_path_isdir w path \<and> fopen_read w path = Inr content
         \<and> h_update h (h_state h) content = Inr st \<longrightarrow>
         hash_file w path h = Inr (h_hexdigest h st, h\<lparr>h_state := st\<rparr>))
   \<and> (\<not> os_path_isdir w path \<and> fopen_read w path = Inr content
         \<and> \<not> os_path_isdir w' path' \<and> fopen_read w' path' = Inr content \<longrightarrow>
         hash_file w path h = hash_file w' path' h)"
proof -
  have a: "os_path_isdir w path \<longrightarrow> hash_file w path h = Inr ([], h)"
    by (simp add: hash_file_def)
  have b: "\<not> os_path_exists w path \<and> faults w path = None \<longrightarrow> hash_file w path h = Inr ([], h)"
    by (auto simp: hash_file_def hash_body_def fopen_read_missing os_path_isdir_def
        os_path_exists_def)
  have c: "\<not> os_path_isdir w path \<and> fopen_read w path = Inl (OSError (Some ENOENT) msg) \<longrightarrow>
         hash_file w path h = Inr ([], h)"
    by (simp add: hash_file_def hash_body_def)
  have d: "\<not> os_path_isdir w path \<and> fopen_read w path = Inl (OSError en msg)
         \<and> en \<noteq> Some ENOENT \<longrightarrow>
         hash_file w path h = Inl (OSError en msg)"
    by (auto simp: hash_file_def hash_body_def)
  have e: "\<not> os_path_isdir w path \<and> fopen_read w path = Inr content
         \<and> h_update h (h_state h) content = Inr st \<longrightarrow>
         hash_file w path h = Inr (h_hexdigest h st, h\<lparr>h_state := st\<rparr>)"
    by (simp add: hash_file_def hash_body_def)
  have f: "\<not> os_path_isdir w path \<and> fopen_read w path = Inr content
         \<and> \<not> os_path_isdir w' path' \<and> fopen_read w' path' = Inr content \<longrightarrow>
         hash_file w path h = hash_file w' path' h"
    by (simp add: hash_file_def hash_body_def)
  from a b c d e f show ?thesis by blast
qed

theorem hash_file_cases_witness:
  "hash_file world1 ''/srv'' toy_hash = Inr ([], toy_hash)
   \<and> hash_file world1 ''/srv/missing'' toy_hash = Inr ([], toy_hash)
   \<and> hash_file world1 ''/srv/locked'' toy_hash = Inl (OSError (Some EACCES) ''Permission denied'')
   \<and> hash_file world1 ''/srv/x'' toy_hash = Inr (''txet'', toy_hash\<lparr>h_state := ''text''\<rparr>)
   \<and> hash_file world1 ''/srv/x'' toy_hash
       = hash_file (world1\<lparr>nodes := [''/y'' \<mapsto> RegFile ''text'']\<rparr>) ''/y'' toy_hash"
proof -
  note defs = world1_def os_path_isdir_def os_path_exists_def fopen_read_def toy_hash_def
    ENOENT_def EACCES_def
  have a: "hash_file world1 ''/srv'' toy_hash = Inr ([], toy_hash)"
    using hash_file_cases [where w = world1 and path = "''/srv''" and h = toy_hash]
    by (simp add: defs)
  have b: "hash_file world1 ''/srv/missing'' toy_hash = Inr ([], toy_hash)"
    using hash_file_cases [where w = world1 and path = "''/srv/missing''" and h = toy_hash]
    by (simp add: defs)
  have c: "hash_file world1 ''/srv/locked'' toy_hash
             = Inl (OSError (Some EACCES) ''Permission denied'')"
    using hash_file_cases [where w = world1 and path = "''/srv/locked''" and h = toy_hash
        and en = "Some EACCES" and msg = "''Permission denied''"]
    by (simp add: defs)
  have d: "hash_file world1 ''/srv/x'' toy_hash = Inr (''txet'', toy_hash\<lparr>h_state := ''text''\<rparr>)"
    using hash_file_cases [where w = world1 and path = "''/srv/x''" and h = toy_hash
        and content = "''text''" and st = "''text''"]
    by (simp add: defs)
  have e: "hash_file world1 ''/srv/x'' toy_hash
       = hash_file (world1\<lparr>nodes := [''/y'' \<mapsto> RegFile ''text'']\<rparr>) ''/y'' toy_hash"
    using hash_file_cases [where w = world1 and path = "''/srv/x''" and h = toy_hash
        and content = "''text''" and w' = "world1\<lparr>nodes := [''/y'' \<mapsto> RegFile ''text'']\<rparr>"
        and path' = "''/y''"]
    by (simp add: defs)
  from a b c d e show ?thesis by blast
qed

text \<open>
  An \<^verbatim>\<open>OSError\<close> raised by the accumulator's \<^verbatim>\<open>update\<close> goes through the same handler: with
  an \<^verbatim>\<open>errno\<close> other than \<^verbatim>\<open>ENOENT\<close> it reaches the caller (the module's test
  \<^verbatim>\<open>test_hash_file_raises_exc\<close>).
\<close>

lemma hash_file_update_raises:
  assumes "\<not> os_path_isdir w path" and "fopen_read w path = Inr content"
    and "h_update h (h_state h) content = Inl (OSError en msg)" and "en \<noteq> Some ENOENT"
  shows "hash_file w path h = Inl (OSError en msg)"
  using assms by (auto simp: hash_file_def hash_body_def)

subsection \<open>The file remover\<close>

lemma os_remove_gone: "os_remove w path = Inr w' \<Longrightarrow> \<not> os_path_exists w' path"
  by (auto simp: os_remove_def os_path_exists_def split: option.splits node.splits)

text \<open>
  Claim C9. Once the connection context is there, \<^verbatim>\<open>remove_file\<close> logs the removal and
  calls \<^verbatim>\<open>os.remove\<close>. A regular file is deleted and the path no longer exists afterwards;
  a path that does not exist (\<^verbatim>\<open>ENOENT\<close>) leaves the call without an exception and the
  filesystem as it was; an \<^verbatim>\<open>OSError\<close> with any other \<^verbatim>\<open>errno\<close>, or with none, reaches the
  caller as it was raised.
\<close>

theorem remove_file_cases:
  assumes "conn_or_init g conn w = Inr (c, w1)"
    and "w2 = log DEBUG (''Removing package file '' @ path) w1"
  shows "(faults w1 path = None \<and> nodes w1 path = Some (RegFile content) \<longrightarrow>
           remove_file g path conn w = Inr (w2\<lparr>nodes := (nodes w1)(path := None)\<rparr>))
    \<and> (os_remove w2 path = Inr wr \<longrightarrow>
           remove_file g path conn w = Inr wr \<and> \<not> path_exists wr path)
    \<and> (faults w1 path = None \<and> \<not> os_path_exists w1 path \<longrightarrow>
           remove_file g path conn w = Inr w2)
    \<and> (os_remove w2 path = Inl (OSError (Some ENOENT) msg) \<longrightarrow>
           remove_file g path conn w = Inr w2)
    \<and> (os_remove w2 path = Inl (OSError en msg) \<and> en \<noteq> Some ENOENT \<longrightarrow>
           remove_file g path conn w = Inl (OSError en msg))"
proof -
  have a: "faults w1 path = None \<and> nodes w1 path = Some (RegFile content) \<longrightarrow>
           remove_file g path conn w = Inr (w2\<lparr>nodes := (nodes w1)(path := None)\<rparr>)"
    using assms by (simp add: remove_file_def os_remove_def log_def)
  have b: "os_remove w2 path = Inr wr \<longrightarrow>
           remove_file g path conn w = Inr wr \<and> \<not> path_exists wr path"
    using assms by (auto simp: remove_file_def path_exists_def dest: os_remove_gone)
  have c: "faults w1 path = None \<and> \<not> os_path_exists w1 path \<longrightarrow>
           remove_file g path conn w = Inr w2"
    using assms by (simp add: remove_file_def os_remove_def log_def os_path_exists_def)
  have d: "os_remove w2 path = Inl (OSError (Some ENOENT) msg) \<longrightarrow>
           remove_file g path conn w = Inr w2"
    using assms by (simp add: remove_file_def)
  have e: "os_remove w2 path = Inl (OSError en msg) \<and> en \<noteq> Some ENOENT \<longrightarrow>
           remove_file g path conn w = Inl (OSError en msg)"
    using assms by (auto simp: remove_file_def)
  from a b c d e show ?thesis by blast
qed

theorem remove_file_cases_witness:
  "remove_file g_master ''/srv/x'' (Some conn0) world1
     = Inr (world1\<lparr>nodes := [''/srv'' \<mapsto> Directory, ''/srv/locked'' \<mapsto> RegFile ''secret''],
                  events := [Log DEBUG ''Removing package file /srv/x'']\<rparr>)
   \<and> \<not> path_exists
          (world1\<lparr>nodes := [''/srv'' \<mapsto> Directory, ''/srv/locked'' \<mapsto> RegFile ''secret''],
                  events := [Log DEBUG ''Removing package file /srv/x'']\<rparr>) ''/srv/x''
   \<and> remove_file g_master ''/srv/missing'' (Some conn0) world1
     = Inr (world1\<lparr>events := [Log DEBUG ''Removing package file /srv/missing'']\<rparr>)
   \<and> remove_file g_master ''/srv/locked'' (Some conn0) world1
     = Inl (OSError (Some EACCES) ''Permission denied'')
   \<and> remove_file g_master ''/srv'' (Some conn0) world1 = Inl (OSError (Some EISDIR) ''/srv'')
   \<and> remove_file g_master ''/f/top.sls'' None world0
     = Inr (world_init\<lparr>events := [Log DEBUG ''Removing package file /f/top.sls'']\<rparr>)"
proof -
  note defs = world1_def os_path_exists_def os_remove_def log_def ENOENT_def EACCES_def
    EISDIR_def
  have h: "conn_or_init g_master (Some conn0) world1 = Inr (conn0, world1)"
    by simp
  have a: "remove_file g_master ''/srv/x'' (Some conn0) world1
     = Inr (world1\<lparr>nodes := [''/srv'' \<mapsto> Directory, ''/srv/locked'' \<mapsto> RegFile ''secret''],
                  events := [Log DEBUG ''Removing package file /srv/x'']\<rparr>)
   \<and> \<not> path_exists
          (world1\<lparr>nodes := [''/srv'' \<mapsto> Directory, ''/srv/locked'' \<mapsto> RegFile ''secret''],
                  events := [Log DEBUG ''Removing package file /srv/x'']\<rparr>) ''/srv/x''"
    using remove_file_cases [OF h refl, where path = "''/srv/x''"
        and wr = "world1\<lparr>nodes := [''/srv'' \<mapsto> Directory,
                                     ''/srv/locked'' \<mapsto> RegFile ''secret''],
                  events := [Log DEBUG ''Removing package file /srv/x'']\<rparr>"]
    by (simp add: defs fun_upd_twist)
  have b: "remove_file g_master ''/srv/missing'' (Some conn0) world1
     = Inr (world1\<lparr>events := [Log DEBUG ''Removing package file /srv/missing'']\<rparr>)"
    using remove_file_cases [OF h refl, where path = "''/srv/missing''"]
    by (simp add: defs)
  have c: "remove_file g_master ''/srv/locked'' (Some conn0) world1
     = Inl (OSError (Some EACCES) ''Permission denied'')"
    using remove_file_cases [OF h refl, where path = "''/srv/locked''"
        and en = "Some EACCES" and msg = "''Permission denied''"]
    by (simp add: defs)
  have d: "remove_file g_master ''/srv'' (Some conn0) world1 = Inl (OSError (Some EISDIR) ''/srv'')"
    using remove_file_cases [OF h refl, where path = "''/srv''"
        and en = "Some EISDIR" and msg = "''/srv''"]
    by (simp add: defs)
  have e: "remove_file g_master ''/f/top.sls'' None world0
     = Inr (world_init\<lparr>events := [Log DEBUG ''Removing package file /f/top.sls'']\<rparr>)"
    using remove_file_cases [OF conn_or_init_world0 refl, where path = "''/f/top.sls''"]
    by (simp add: os_path_exists_def log_def world_init_def world0_def)
  from a b c d e show ?thesis by blast
qed

subsection \<open>The world under \<^verbatim>\<open>init\<close> and \<^verbatim>\<open>map_path\<close>\<close>

text \<open>
  \<^verbatim>\<open>init\<close> reads and writes the filesystem only: the log does not influence it and it
  leaves the log alone. Once it has succeeded, a second call changes nothing.
\<close>

lemma events_nodes_swap:
  "w\<lparr>events := es, nodes := n\<rparr> = w\<lparr>nodes := n, events := es\<rparr>"
  by (cases w) simp

lemma mkdir_all_events:
  "mkdir_all ds (w\<lparr>events := es\<rparr>) =
     (case mkdir_all ds w of Inl e \<Rightarrow> Inl e | Inr w' \<Rightarrow> Inr (w'\<lparr>events := es\<rparr>))"
proof (induction ds arbitrary: w)
  case Nil
  show ?case by simp
next
  case (Cons d ds)
  show ?case
  proof (cases "nodes w d")
    case None
    have "mkdir_all (d # ds) (w\<lparr>events := es\<rparr>)
            = mkdir_all ds ((w\<lparr>nodes := (nodes w)(d \<mapsto> Directory)\<rparr>)\<lparr>events := es\<rparr>)"
      using None by (simp add: events_nodes_swap)
    also have "\<dots> = (case mkdir_all ds (w\<lparr>nodes := (nodes w)(d \<mapsto> Directory)\<rparr>) of
                       Inl e \<Rightarrow> Inl e | Inr w' \<Rightarrow> Inr (w'\<lparr>events := es\<rparr>))"
      by (rule Cons.IH)
    also have "\<dots> = (case mkdir_all (d # ds) w of
                       Inl e \<Rightarrow> Inl e | Inr w' \<Rightarrow> Inr (w'\<lparr>events := es\<rparr>))"
      using None by simp
    finally show ?thesis .
  next
    case (Some nd)
    show ?thesis
    proof (cases nd)
      case (RegFile x)
      with Some show ?thesis by simp
    next
      case Directory
      with Some Cons.IH [of w] show ?thesis by simp
    qed
  qed
qed


lemma os_makedirs_events:
  "os_makedirs (w\<lparr>events := es\<rparr>) d =
     (case os_makedirs w d of Inl e \<Rightarrow> Inl e | Inr w' \<Rightarrow> Inr (w'\<lparr>events := es\<rparr>))"
  by (auto simp: os_makedirs_def mkdir_all_events split: option.splits)

lemma init_dirs_events:
  "init_dirs ds (w\<lparr>events := es\<rparr>) =
     (case init_dirs ds w of Inl e \<Rightarrow> Inl e | Inr w' \<Rightarrow> Inr (w'\<lparr>events := es\<rparr>))"
proof (induction ds arbitrary: w)
  case Nil
  show ?case by simp
next
  case (Cons d ds)
  show ?case
  proof (cases "os_path_exists w d")
    case True
    then have "os_path_exists (w\<lparr>events := es\<rparr>) d"
      by (simp add: os_path_exists_def)
    with True Cons.IH [of w] show ?thesis by simp
  next
    case False
    then have ne: "\<not> os_path_exists (w\<lparr>events := es\<rparr>) d"
      by (simp add: os_path_exists_def)
    show ?thesis
    proof (cases "os_makedirs w d")
      case (Inl e)
      with False ne show ?thesis by (simp add: os_makedirs_events)
    next
      case (Inr v)
      with False ne Cons.IH [of v] show ?thesis by (simp add: os_makedirs_events)
    qed
  qed
qed

lemma init_events:
  "init g (w\<lparr>events := es\<rparr>) =
     (case init g w of Inl e \<Rightarrow> Inl e | Inr (c, w') \<Rightarrow> Inr (c, w'\<lparr>events := es\<rparr>))"
proof (cases "formula_path (opts g)")
  case None
  then show ?thesis by (simp add: init_def)
next
  case fp: (Some fp)
  show ?thesis
  proof (cases "pillar_path (opts g)")
    case None
    with fp show ?thesis by (simp add: init_def)
  next
    case pp: (Some pp)
    show ?thesis
    proof (cases "reactor_path (opts g)")
      case None
      with fp pp show ?thesis by (simp add: init_def)
    next
      case rp: (Some rp)
      show ?thesis
      proof (cases "spm_module_path (opts g)")
        case None
        with fp pp rp show ?thesis by (simp add: init_def)
      next
        case mp: (Some mp)
        show ?thesis
        proof (cases "init_dirs [fp, pp, rp, mp] w")
          case (Inl e)
          with fp pp rp mp init_dirs_events [where ds = "[fp, pp, rp, mp]" and w = w and es = es] show ?thesis
            by (simp add: init_def del: init_dirs.simps)
        next
          case (Inr v)
          with fp pp rp mp init_dirs_events [where ds = "[fp, pp, rp, mp]" and w = w and es = es] show ?thesis
            by (simp add: init_def del: init_dirs.simps)
        qed
      qed
    qed
  qed
qed

lemma conn_or_init_events:
  "conn_or_init g conn (w\<lparr>events := es\<rparr>) =
     (case conn_or_init g conn w of
        Inl e \<Rightarrow> Inl e
      | Inr (c, w') \<Rightarrow> Inr (c, w'\<lparr>events := es\<rparr>))"
  by (cases conn) (simp_all add: conn_or_init_def init_events)

lemma mkdir_all_keeps_dir:
  "mkdir_all ds w = Inr w' \<Longrightarrow> nodes w p \<noteq> None \<Longrightarrow> nodes w' p = nodes w p"
proof (induction ds arbitrary: w)
  case Nil
  then show ?case by simp
next
  case (Cons a ds)
  show ?case
  proof (cases "nodes w a")
    case None
    with Cons.prems(1) have r: "mkdir_all ds (w\<lparr>nodes := (nodes w)(a \<mapsto> Directory)\<rparr>) = Inr w'"
      by simp
    from None Cons.prems(2) have "p \<noteq> a" by auto
    then have "nodes (w\<lparr>nodes := (nodes w)(a \<mapsto> Directory)\<rparr>) p = nodes w p"
      by simp
    with Cons.IH [OF r] Cons.prems(2) show ?thesis by simp
  next
    case (Some nd)
    show ?thesis
    proof (cases nd)
      case (RegFile x)
      with Some Cons.prems(1) show ?thesis by simp
    next
      case Directory
      with Some Cons.prems(1) have "mkdir_all ds w = Inr w'" by simp
      from Cons.IH [OF this Cons.prems(2)] show ?thesis .
    qed
  qed
qed

lemma mkdir_all_creates:
  "mkdir_all ds w = Inr w' \<Longrightarrow> d \<in> set ds \<Longrightarrow> nodes w' d = Some Directory"
proof (induction ds arbitrary: w)
  case Nil
  then show ?case by simp
next
  case (Cons a ds)
  show ?case
  proof (cases "nodes w a")
    case None
    with Cons.prems(1) have r: "mkdir_all ds (w\<lparr>nodes := (nodes w)(a \<mapsto> Directory)\<rparr>) = Inr w'"
      by simp
    show ?thesis
    proof (cases "d \<in> set ds")
      case True
      with Cons.IH [OF r] show ?thesis by simp
    next
      case False
      with Cons.prems(2) have "d = a" by simp
      with mkdir_all_keeps_dir [OF r, of a] show ?thesis by simp
    qed
  next
    case (Some nd)
    with Cons.prems(1) have nd: "nd = Directory" and r: "mkdir_all ds w = Inr w'"
      by (auto split: node.splits)
    show ?thesis
    proof (cases "d \<in> set ds")
      case True
      with Cons.IH [OF r] show ?thesis by simp
    next
      case False
      with Cons.prems(2) have "d = a" by simp
      with mkdir_all_keeps_dir [OF r, of a] Some nd show ?thesis by simp
    qed
  qed
qed

lemma mkdir_all_events_same: "mkdir_all ds w = Inr w' \<Longrightarrow> events w' = events w"
proof (induction ds arbitrary: w)
  case Nil
  then show ?case by simp
next
  case (Cons a ds)
  show ?case
  proof (cases "nodes w a")
    case None
    with Cons.prems have "mkdir_all ds (w\<lparr>nodes := (nodes w)(a \<mapsto> Directory)\<rparr>) = Inr w'"
      by simp
    from Cons.IH [OF this] show ?thesis by simp
  next
    case (Some nd)
    show ?thesis
    proof (cases nd)
      case (RegFile x)
      with Some Cons.prems show ?thesis by simp
    next
      case Directory
      with Some Cons.prems have "mkdir_all ds w = Inr w'" by simp
      from Cons.IH [OF this] show ?thesis .
    qed
  qed
qed

lemma os_makedirs_exists:
  assumes "os_makedirs w d = Inr w'"
  shows "os_path_exists w' d" and "os_path_exists w p \<Longrightarrow> os_path_exists w' p"
    and "events w' = events w"
proof -
  from assms have m: "mkdir_all (ancestors d @ [d]) w = Inr w'"
    by (auto simp: os_makedirs_def split: option.splits if_splits)
  from mkdir_all_creates [OF m, of d] show "os_path_exists w' d"
    by (simp add: os_path_exists_def)
  from mkdir_all_keeps_dir [OF m, of p] show "os_path_exists w p \<Longrightarrow> os_path_exists w' p"
    by (auto simp: os_path_exists_def)
  from mkdir_all_events_same [OF m] show "events w' = events w" .
qed

lemma init_dirs_step:
  assumes "init_dirs (d # ds) w = Inr w'"
  obtains (there) "os_path_exists w d" "init_dirs ds w = Inr w'"
  | (made) v where "\<not> os_path_exists w d" "os_makedirs w d = Inr v" "init_dirs ds v = Inr w'"
proof (cases "os_path_exists w d")
  case True
  with assms have "init_dirs ds w = Inr w'" by simp
  with True show ?thesis by (rule there)
next
  case False
  show ?thesis
  proof (cases "os_makedirs w d")
    case (Inl e)
    with False assms show ?thesis by simp
  next
    case (Inr v)
    with False assms have "init_dirs ds v = Inr w'" by simp
    with False Inr show ?thesis by (rule made)
  qed
qed

lemma init_dirs_mono:
  "init_dirs ds w = Inr w' \<Longrightarrow> os_path_exists w p \<Longrightarrow> os_path_exists w' p"
proof (induction ds arbitrary: w)
  case Nil
  then show ?case by simp
next
  case (Cons d ds)
  from Cons.prems(1) show ?case
  proof (cases rule: init_dirs_step)
    case there
    from Cons.IH [OF there(2) Cons.prems(2)] show ?thesis .
  next
    case (made v)
    from os_makedirs_exists(2) [OF made(2) Cons.prems(2)] have "os_path_exists v p" .
    from Cons.IH [OF made(3) this] show ?thesis .
  qed
qed

lemma init_dirs_events_same: "init_dirs ds w = Inr w' \<Longrightarrow> events w' = events w"
proof (induction ds arbitrary: w)
  case Nil
  then show ?case by simp
next
  case (Cons d ds)
  from Cons.prems(1) show ?case
  proof (cases rule: init_dirs_step)
    case there
    from Cons.IH [OF there(2)] show ?thesis .
  next
    case (made v)
    from Cons.IH [OF made(3)] os_makedirs_exists(3) [OF made(2)] show ?thesis by simp
  qed
qed

lemma init_dirs_exist:
  "init_dirs ds w = Inr w' \<Longrightarrow> d \<in> set ds \<Longrightarrow> os_path_exists w' d"
proof (induction ds arbitrary: w)
  case Nil
  then show ?case by simp
next
  case (Cons a ds)
  from Cons.prems(1) show ?case
  proof (cases rule: init_dirs_step)
    case there
    show ?thesis
    proof (cases "d \<in> set ds")
      case True
      from Cons.IH [OF there(2) True] show ?thesis .
    next
      case False
      with Cons.prems(2) have "d = a" by simp
      with init_dirs_mono [OF there(2) there(1)] show ?thesis by simp
    qed
  next
    case (made v)
    show ?thesis
    proof (cases "d \<in> set ds")
      case True
      from Cons.IH [OF made(3) True] show ?thesis .
    next
      case False
      with Cons.prems(2) have "d = a" by simp
      with init_dirs_mono [OF made(3) os_makedirs_exists(1) [OF made(2)]] show ?thesis by simp
    qed
  qed
qed

lemma init_dirs_stable: "\<forall>d \<in> set ds. os_path_exists w d \<Longrightarrow> init_dirs ds w = Inr w"
  by (induction ds) simp_all

lemma init_Inr:
  assumes "init g w = Inr (c, w1)"
  obtains fp pp rp mp where
    "formula_path (opts g) = Some fp" "pillar_path (opts g) = Some pp"
    "reactor_path (opts g) = Some rp" "spm_module_path (opts g) = Some mp"
    "init_dirs [fp, pp, rp, mp] w = Inr w1"
    "c = [''formula_path'' \<mapsto> fp, ''pillar_path'' \<mapsto> pp,
          ''reactor_path'' \<mapsto> rp, ''spm_module_path'' \<mapsto> mp]"
proof (cases "formula_path (opts g)")
  case None
  with assms show ?thesis by (simp add: init_def)
next
  case fp: (Some fp)
  show ?thesis
  proof (cases "pillar_path (opts g)")
    case None
    with fp assms show ?thesis by (simp add: init_def)
  next
    case pp: (Some pp)
    show ?thesis
    proof (cases "reactor_path (opts g)")
      case None
      with fp pp assms show ?thesis by (simp add: init_def)
    next
      case rp: (Some rp)
      show ?thesis
      proof (cases "spm_module_path (opts g)")
        case None
        with fp pp rp assms show ?thesis by (simp add: init_def)
      next
        case mp: (Some mp)
        show ?thesis
        proof (cases "init_dirs [fp, pp, rp, mp] w")
          case (Inl e)
          with fp pp rp mp assms show ?thesis
            by (simp add: init_def del: init_dirs.simps)
        next
          case (Inr v)
          with fp pp rp mp assms have "v = w1"
            and "c = [''formula_path'' \<mapsto> fp, ''pillar_path'' \<mapsto> pp,
                      ''reactor_path'' \<mapsto> rp, ''spm_module_path'' \<mapsto> mp]"
            by (simp_all add: init_def del: init_dirs.simps)
          with fp pp rp mp Inr that show ?thesis by blast
        qed
      qed
    qed
  qed
qed

lemma conn_or_init_idem:
  assumes "conn_or_init g conn w = Inr (c, w1)"
  shows "conn_or_init g conn w1 = Inr (c, w1)"
proof (cases conn)
  case None
  with assms have "init g w = Inr (c, w1)"
    by (simp add: conn_or_init_def)
  then obtain fp pp rp mp where
    o: "formula_path (opts g) = Some fp" "pillar_path (opts g) = Some pp"
       "reactor_path (opts g) = Some rp" "spm_module_path (opts g) = Some mp"
    and d: "init_dirs [fp, pp, rp, mp] w = Inr w1"
    and c: "c = [''formula_path'' \<mapsto> fp, ''pillar_path'' \<mapsto> pp,
                ''reactor_path'' \<mapsto> rp, ''spm_module_path'' \<mapsto> mp]"
    by (rule init_Inr)
  from init_dirs_exist [OF d] have "\<forall>x \<in> set [fp, pp, rp, mp]. os_path_exists w1 x"
    by blast
  then have "init_dirs [fp, pp, rp, mp] w1 = Inr w1"
    by (rule init_dirs_stable)
  with o c None show ?thesis
    by (simp add: conn_or_init_def init_def del: init_dirs.simps)
next
  case (Some a)
  with assms show ?thesis by (simp add: conn_or_init_def)
qed

lemma conn_or_init_events_same:
  assumes "conn_or_init g conn w = Inr (c, w1)"
  shows "events w1 = events w"
proof (cases conn)
  case None
  with assms have "init g w = Inr (c, w1)"
    by (simp add: conn_or_init_def)
  then obtain ds where "init_dirs ds w = Inr w1"
    by (rule init_Inr)
  then show ?thesis by (rule init_dirs_events_same)
next
  case (Some a)
  with assms show ?thesis by (simp add: conn_or_init_def)
qed

lemma map_path_via_conn:
  assumes "conn_or_init g conn w = Inr (c, w1)"
  shows "map_path g p f pd conn w = map_path g p f pd (Some c) w1"
  using assms by (simp add: map_path_def)

lemma map_path_world:
  "map_path g p f pd (Some c) w =
     (case map_path g p f pd (Some c) world0 of
        Inl e \<Rightarrow> Inl e
      | Inr (r, v) \<Rightarrow> Inr (r, w\<lparr>events := events w @ events v\<rparr>))"
  by (simp add: map_path_def Let_def log_def world0_def split: option.splits)

subsection \<open>The loop of \<^verbatim>\<open>check_existing\<close>\<close>

text \<open>
  Each member is handled on its own: one pass of the loop appends the member's conflict
  to the list and the member's entries to the log, and leaves the filesystem as
  \<^verbatim>\<open>init\<close> left it.
\<close>

lemma both_truthy_None:
  "both_truthy bp fp = None \<longleftrightarrow> bp = None \<or> bp = Some [] \<or> fp = None \<or> fp = Some []"
  by (cases bp; cases fp) (auto simp: both_truthy_def py_not_def)

lemma both_truthy_Some:
  "both_truthy bp fp = Some (b, fl) \<longleftrightarrow> bp = Some b \<and> fp = Some fl \<and> b \<noteq> [] \<and> fl \<noteq> []"
  by (cases bp; cases fp) (auto simp: both_truthy_def py_not_def)

lemma existing_path_isdir [simp]: "isdir m \<Longrightarrow> existing_path g fd c w m = []"
  by (simp add: existing_path_def)

lemma member_events_isdir [simp]: "isdir m \<Longrightarrow> member_events g package fd c w m = []"
  by (simp add: member_events_def)

lemma os_path_exists_events [simp]:
  "os_path_exists (w\<lparr>events := es\<rparr>) p = os_path_exists w p"
  by (simp add: os_path_exists_def)

lemma existing_path_events [simp]:
  "existing_path g fd c (w\<lparr>events := es\<rparr>) m = existing_path g fd c w m"
  by (simp add: existing_path_def split: sum.splits prod.splits option.splits)

lemma member_events_events [simp]:
  "member_events g package fd c (w\<lparr>events := es\<rparr>) m = member_events g package fd c w m"
  by (simp add: member_events_def split: sum.splits prod.splits)

lemma map_path_member:
  assumes ci: "conn_or_init g conn w = Inr (c, w1)"
    and mo: "mapping_of g fd c m = Inr ((bp, fp), ls)"
  shows "map_path g (name m) fd None conn (w\<lparr>events := es\<rparr>)
           = Inr ((bp, fp), w1\<lparr>events := es @ ls\<rparr>)"
proof -
  from ci have "conn_or_init g conn (w\<lparr>events := es\<rparr>) = Inr (c, w1\<lparr>events := es\<rparr>)"
    by (simp add: conn_or_init_events)
  then have "map_path g (name m) fd None conn (w\<lparr>events := es\<rparr>)
               = map_path g (name m) fd None (Some c) (w1\<lparr>events := es\<rparr>)"
    by (rule map_path_via_conn)
  also have "\<dots> = (case map_path g (name m) fd None (Some c) world0 of
                      Inl e \<Rightarrow> Inl e
                    | Inr (r, v) \<Rightarrow>
                        Inr (r, (w1\<lparr>events := es\<rparr>)
                                  \<lparr>events := events (w1\<lparr>events := es\<rparr>) @ events v\<rparr>))"
    by (rule map_path_world)
  also have "\<dots> = Inr ((bp, fp), w1\<lparr>events := es @ ls\<rparr>)"
    using mo by (auto simp: mapping_of_def split: sum.splits)
  finally show ?thesis .
qed

lemma check_existing_step:
  assumes ci: "conn_or_init g conn w = Inr (c, w1)"
    and fo: "force (opts g) = Some fo"
    and nd: "\<not> isdir m"
    and mo: "mapping_of g fd c m = Inr ((bp, fp), ls)"
  shows "check_existing_loop g package (m # ms) fd conn acc w
           = check_existing_loop g package ms fd conn (acc @ existing_path g fd c w1 m)
               (w1\<lparr>events := events w @ member_events g package fd c w1 m\<rparr>)"
proof -
  let ?L = "Log DEBUG (''Checking if '' @ package @ '':'' @ name m
                         @ '' is already installed ...'')"
  let ?W = "Log WARNING (name m @ '' not in top level directory'')"
  have lg: "log DEBUG (''Checking if '' @ package @ '':'' @ name m
                         @ '' is already installed ...'') w = w\<lparr>events := events w @ [?L]\<rparr>"
    by (simp add: log_def)
  have mp: "map_path g (name m) fd None conn (w\<lparr>events := events w @ [?L]\<rparr>)
              = Inr ((bp, fp), w1\<lparr>events := (events w @ [?L]) @ ls\<rparr>)"
    using ci mo by (rule map_path_member)
  show ?thesis
  proof (cases "both_truthy bp fp")
    case None
    then have u: "bp = None \<or> bp = Some [] \<or> fp = None \<or> fp = Some []"
      by (simp add: both_truthy_None)
    then have ep: "existing_path g fd c w1 m = []"
      using mo by (auto simp: existing_path_def split: option.splits)
    have me: "member_events g package fd c w1 m = ?L # ls @ [?W]"
      using nd mo u by (simp add: member_events_def)
    show ?thesis
      using nd None mp ep me by (simp add: log_def)
  next
    case (Some bf)
    obtain b fl where bf: "bf = (b, fl)" by (cases bf)
    with Some have t: "bp = Some b" "fp = Some fl" "b \<noteq> []" "fl \<noteq> []"
      by (simp_all add: both_truthy_Some)
    have ex: "os_path_exists (w1\<lparr>events := (events w @ [?L]) @ ls\<rparr>) (sep_join b fl)
                = os_path_exists w1 (sep_join b fl)"
      by (simp add: os_path_exists_def)
    show ?thesis
    proof (cases "os_path_exists w1 (sep_join b fl)")
      case True
      have ep: "existing_path g fd c w1 m = [sep_join b fl]"
        using nd mo t True by (simp add: existing_path_def)
      have me: "member_events g package fd c w1 m
                  = ?L # ls @ (if fo then []
                               else [Log ERROR (sep_join b fl @ '' already exists, not installing'')])"
        using nd mo t fo ep by (simp add: member_events_def)
      show ?thesis
        using nd Some bf True fo mp ep me by (simp add: log_def Let_def)
    next
      case False
      have ep: "existing_path g fd c w1 m = []"
        using nd mo t False by (simp add: existing_path_def)
      have me: "member_events g package fd c w1 m = ?L # ls"
        using nd mo t ep by (simp add: member_events_def)
      show ?thesis
        using nd Some bf False mp ep me by (simp add: log_def Let_def)
    qed
  qed
qed

lemma check_existing_loop_stable:
  assumes st: "conn_or_init g conn v = Inr (c, v)"
    and fo: "force (opts g) = Some fo"
    and ok: "\<forall>m \<in> set ms. \<not> isdir m \<longrightarrow> (\<exists>r. mapping_of g fd c m = Inr r)"
  shows "check_existing_loop g package ms fd conn acc (v\<lparr>events := es\<rparr>)
           = Inr (acc @ concat (map (existing_path g fd c v) ms),
                  v\<lparr>events := es @ concat (map (member_events g package fd c v) ms)\<rparr>)"
  using ok
proof (induction ms arbitrary: acc es)
  case Nil
  show ?case by simp
next
  case (Cons m ms)
  from Cons.prems have ok': "\<forall>m \<in> set ms. \<not> isdir m \<longrightarrow> (\<exists>r. mapping_of g fd c m = Inr r)"
    by simp
  show ?case
  proof (cases "isdir m")
    case True
    with Cons.IH [OF ok', of acc es] show ?thesis by simp
  next
    case False
    with Cons.prems obtain bp fp ls where mo: "mapping_of g fd c m = Inr ((bp, fp), ls)"
      by fastforce
    from st have ci: "conn_or_init g conn (v\<lparr>events := es\<rparr>) = Inr (c, v\<lparr>events := es\<rparr>)"
      by (simp add: conn_or_init_events)
    have "check_existing_loop g package (m # ms) fd conn acc (v\<lparr>events := es\<rparr>)
            = check_existing_loop g package ms fd conn (acc @ existing_path g fd c v m)
                (v\<lparr>events := es @ member_events g package fd c v m\<rparr>)"
      using check_existing_step [OF ci fo False mo, of package ms acc] by simp
    also have "\<dots> = Inr ((acc @ existing_path g fd c v m) @ concat (map (existing_path g fd c v) ms),
                  v\<lparr>events := (es @ member_events g package fd c v m)
                                @ concat (map (member_events g package fd c v) ms)\<rparr>)"
      by (rule Cons.IH [OF ok'])
    finally show ?thesis by simp
  qed
qed

lemma check_existing_loop_spec:
  assumes ci: "conn_or_init g conn w = Inr (c, w1)"
    and fo: "force (opts g) = Some fo"
    and ok: "\<forall>m \<in> set ms. \<not> isdir m \<longrightarrow> (\<exists>r. mapping_of g fd c m = Inr r)"
  shows "check_existing_loop g package ms fd conn acc w
           = Inr (acc @ concat (map (existing_path g fd c w1) ms),
                  (if list_all isdir ms then w else w1)
                    \<lparr>events := events w @ concat (map (member_events g package fd c w1) ms)\<rparr>)"
  using ok
proof (induction ms arbitrary: acc)
  case Nil
  show ?case by simp
next
  case (Cons m ms)
  from Cons.prems have ok': "\<forall>m \<in> set ms. \<not> isdir m \<longrightarrow> (\<exists>r. mapping_of g fd c m = Inr r)"
    by simp
  show ?case
  proof (cases "isdir m")
    case True
    with Cons.IH [OF ok', of acc] show ?thesis by simp
  next
    case False
    with Cons.prems obtain bp fp ls where mo: "mapping_of g fd c m = Inr ((bp, fp), ls)"
      by fastforce
    from ci have st: "conn_or_init g conn w1 = Inr (c, w1)"
      by (rule conn_or_init_idem)
    have "check_existing_loop g package (m # ms) fd conn acc w
            = check_existing_loop g package ms fd conn (acc @ existing_path g fd c w1 m)
                (w1\<lparr>events := events w @ member_events g package fd c w1 m\<rparr>)"
      using ci fo False mo by (rule check_existing_step)
    also have "\<dots> = Inr ((acc @ existing_path g fd c w1 m)
                          @ concat (map (existing_path g fd c w1) ms),
                  w1\<lparr>events := (events w @ member_events g package fd c w1 m)
                                @ concat (map (member_events g package fd c w1) ms)\<rparr>)"
      using st fo ok' by (rule check_existing_loop_stable)
    finally show ?thesis using False by simp
  qed
qed

lemma map_path_force:
  "map_path (g\<lparr>opts := (opts g)\<lparr>force := x\<rparr>\<rparr>) p f pd (Some c) w = map_path g p f pd (Some c) w"
proof -
  have a: "node_type_str (g\<lparr>opts := (opts g)\<lparr>force := x\<rparr>\<rparr>) = node_type_str g"
    by (simp add: node_type_str_def)
  have b: "CONFIG_DIR (g\<lparr>opts := (opts g)\<lparr>force := x\<rparr>\<rparr>) = CONFIG_DIR g"
    by simp
  show ?thesis
    unfolding map_path_def conn_or_init_Some a b by (rule refl)
qed

lemma existing_path_force:
  "existing_path (g\<lparr>opts := (opts g)\<lparr>force := x\<rparr>\<rparr>) fd c w = existing_path g fd c w"
proof (rule ext)
  fix m
  show "existing_path (g\<lparr>opts := (opts g)\<lparr>force := x\<rparr>\<rparr>) fd c w m = existing_path g fd c w m"
    unfolding existing_path_def mapping_of_def map_path_force by (rule refl)
qed

lemma mapping_of_total:
  assumes "fd ''name'' \<noteq> None" and "c ''formula_path'' \<noteq> None"
    and "c ''pillar_path'' \<noteq> None" and "c ''reactor_path'' \<noteq> None"
    and "c ''spm_module_path'' \<noteq> None"
  shows "\<exists>r. mapping_of g fd c m = Inr r"
  using assms
  by (auto simp: mapping_of_def map_path_def Let_def split: sum.splits option.splits)

lemma map_path_logs:
  assumes "map_path g p f pd (Some c) world0 = Inr (r, v)"
  shows "events v = [] \<or> events v = [Log ERROR node_type_msg]"
  using assms
  by (auto simp: map_path_def Let_def log_def world0_def
      split: sum.splits option.splits if_splits)

lemma mapping_of_events:
  assumes "mapping_of g fd c m = Inr (r, es)"
  shows "es = [] \<or> es = [Log ERROR node_type_msg]"
  using assms by (auto simp: mapping_of_def split: sum.splits dest: map_path_logs)

lemma node_type_msg_differs: "node_type_msg \<noteq> p @ '' already exists, not installing''"
proof
  assume "node_type_msg = p @ '' already exists, not installing''"
  then have "last node_type_msg = last (p @ '' already exists, not installing'')"
    by simp
  then show False
    by (simp add: node_type_msg_def)
qed

lemma member_events_warning:
  assumes "\<not> isdir m" and "mapping_of g fd c m = Inr ((bp, fp), es)"
    and "bp = None \<or> bp = Some [] \<or> fp = None \<or> fp = Some []"
  shows "existing_path g fd c w m = []"
    and "Log WARNING (name m @ '' not in top level directory'')
           \<in> set (member_events g package fd c w m)"
  using assms by (auto simp: existing_path_def member_events_def split: option.splits)

lemma member_events_forced:
  assumes "force (opts g) = Some True"
    and "Log ERROR (p @ '' already exists, not installing'')
           \<in> set (member_events g package fd c w m)"
  shows False
proof (cases "mapping_of g fd c m")
  case (Inl e)
  with assms show ?thesis
    by (auto simp: member_events_def split: if_splits)
next
  case (Inr r)
  obtain bp fp es where r: "r = ((bp, fp), es)"
    by (cases r) auto
  from Inr r mapping_of_events [of g fd c m "(bp, fp)" es]
  have "es = [] \<or> es = [Log ERROR node_type_msg]"
    by simp
  with assms Inr r node_type_msg_differs [of p] show ?thesis
    by (auto simp: member_events_def split: if_splits)
qed

lemma existing_path_single:
  assumes "p \<in> set (existing_path g fd c w m)"
  shows "existing_path g fd c w m = [p]"
  using assms
  by (auto simp: existing_path_def split: if_splits sum.splits option.splits)

lemma member_events_unforced:
  assumes "force (opts g) = Some False" and "p \<in> set (existing_path g fd c w m)"
  shows "Log ERROR (p @ '' already exists, not installing'')
           \<in> set (member_events g package fd c w m)"
proof -
  from assms(2) have e: "existing_path g fd c w m = [p]"
    by (rule existing_path_single)
  then have nd: "\<not> isdir m"
    by (auto simp: existing_path_def split: if_splits)
  from e nd obtain b fl es where
    mo: "mapping_of g fd c m = Inr ((Some b, Some fl), es)" and ne: "b \<noteq> []" "fl \<noteq> []"
    by (auto simp: existing_path_def split: if_splits sum.splits option.splits)
  from assms(1) e nd mo ne show ?thesis
    by (simp add: member_events_def)
qed


subsection \<open>What \<^verbatim>\<open>map_path\<close> leaves of the archive\<close>

lemma extractions_log [simp]: "extractions (log lvl msg w) = extractions w"
  by (simp add: extractions_def log_def)

lemma extractions_tar_extract [simp]:
  "extractions (tar_extract m dir w) = extractions w @ [(m, dir)]"
  by (simp add: extractions_def tar_extract_def)

lemma extractions_events: "events w' = events w \<Longrightarrow> extractions w' = extractions w"
  by (simp add: extractions_def)

lemma map_path_extractions:
  assumes "map_path g p f pd conn w = Inr (r, w')"
  shows "extractions w' = extractions w"
proof (cases "conn_or_init g conn w")
  case (Inl e)
  with assms show ?thesis by (simp add: map_path_def)
next
  case (Inr cw)
  obtain c w1 where cw: "cw = (c, w1)" by (cases cw)
  with Inr have ci: "conn_or_init g conn w = Inr (c, w1)" by simp
  then have e: "extractions w1 = extractions w"
    by (auto dest: conn_or_init_events_same intro: extractions_events)
  from ci have "map_path g p f pd conn w = map_path g p f pd (Some c) w1"
    by (rule map_path_via_conn)
  with assms have m: "map_path g p f pd (Some c) w1 = Inr (r, w')" by simp
  have "map_path g p f pd (Some c) w1 =
     (case map_path g p f pd (Some c) world0 of
        Inl e \<Rightarrow> Inl e
      | Inr (r, v) \<Rightarrow> Inr (r, w1\<lparr>events := events w1 @ events v\<rparr>))"
    by (rule map_path_world)
  with m obtain v where v: "map_path g p f pd (Some c) world0 = Inr (r, v)"
    and w': "w' = w1\<lparr>events := events w1 @ events v\<rparr>"
    by (auto split: sum.splits)
  from v have "events v = [] \<or> events v = [Log ERROR node_type_msg]"
    by (rule map_path_logs)
  with w' have "extractions w' = extractions w1"
    by (auto simp: extractions_def)
  with e show ?thesis by simp
qed

subsection \<open>The file installer\<close>

text \<open>
  Claim C5, as the code has it. A member named like the package gives \<^verbatim>\<open>False\<close> and
  the world is untouched. Otherwise, when \<^verbatim>\<open>map_path\<close> gives a base or a relative path
  that is \<^verbatim>\<open>None\<close> or the empty string, the call logs a warning, returns \<^verbatim>\<open>False\<close>, leaves
  the member as it was and hands nothing to the archive. Otherwise the member's name
  becomes the relative path, exactly this member is handed to the archive with the base
  directory as target, and the base directory is returned.
\<close>

theorem install_file_cases:
  "(name m = package \<longrightarrow> install_file g package m fd conn w = Inr ((PyFalse, m), w))
   \<and> (name m \<noteq> package \<and> map_path g (name m) fd None conn w = Inr ((bp, fp), w1)
        \<and> (bp = None \<or> bp = Some [] \<or> fp = None \<or> fp = Some []) \<longrightarrow>
        install_file g package m fd conn w
          = Inr ((PyFalse, m),
                 log WARNING (name m @ '' not in top level directory, not installing'') w1)
        \<and> extractions
              (log WARNING (name m @ '' not in top level directory, not installing'') w1)
            = extractions w)
   \<and> (name m \<noteq> package \<and> map_path g (name m) fd None conn w = Inr ((Some b, Some fl), w1)
        \<and> b \<noteq> [] \<and> fl \<noteq> [] \<and>
        wx = tar_extract (m\<lparr>name := fl\<rparr>) b
               (log DEBUG (''Installing package file '' @ fl @ '' to '' @ b @ ''/'' @ fl) w1) \<longrightarrow>
        install_file g package m fd conn w = Inr ((PyStr b, m\<lparr>name := fl\<rparr>), wx)
        \<and> extractions wx = extractions w @ [(m\<lparr>name := fl\<rparr>, b)])"
proof -
  have a: "name m = package \<longrightarrow> install_file g package m fd conn w = Inr ((PyFalse, m), w)"
    by (simp add: install_file_def)
  have b: "name m \<noteq> package \<and> map_path g (name m) fd None conn w = Inr ((bp, fp), w1)
        \<and> (bp = None \<or> bp = Some [] \<or> fp = None \<or> fp = Some []) \<longrightarrow>
        install_file g package m fd conn w
          = Inr ((PyFalse, m),
                 log WARNING (name m @ '' not in top level directory, not installing'') w1)
        \<and> extractions
              (log WARNING (name m @ '' not in top level directory, not installing'') w1)
            = extractions w"
  proof (intro impI)
    assume h: "name m \<noteq> package \<and> map_path g (name m) fd None conn w = Inr ((bp, fp), w1)
        \<and> (bp = None \<or> bp = Some [] \<or> fp = None \<or> fp = Some [])"
    then have n: "both_truthy bp fp = None"
      by (simp add: both_truthy_None)
    from h have "extractions w1 = extractions w"
      by (auto dest: map_path_extractions)
    with h n show "install_file g package m fd conn w
          = Inr ((PyFalse, m),
                 log WARNING (name m @ '' not in top level directory, not installing'') w1)
        \<and> extractions
              (log WARNING (name m @ '' not in top level directory, not installing'') w1)
            = extractions w"
      by (simp add: install_file_def)
  qed
  have c: "name m \<noteq> package \<and> map_path g (name m) fd None conn w = Inr ((Some b, Some fl), w1)
        \<and> b \<noteq> [] \<and> fl \<noteq> [] \<and>
        wx = tar_extract (m\<lparr>name := fl\<rparr>) b
               (log DEBUG (''Installing package file '' @ fl @ '' to '' @ b @ ''/'' @ fl) w1) \<longrightarrow>
        install_file g package m fd conn w = Inr ((PyStr b, m\<lparr>name := fl\<rparr>), wx)
        \<and> extractions wx = extractions w @ [(m\<lparr>name := fl\<rparr>, b)]"
  proof (intro impI)
    assume h: "name m \<noteq> package
        \<and> map_path g (name m) fd None conn w = Inr ((Some b, Some fl), w1)
        \<and> b \<noteq> [] \<and> fl \<noteq> [] \<and>
        wx = tar_extract (m\<lparr>name := fl\<rparr>) b
               (log DEBUG (''Installing package file '' @ fl @ '' to '' @ b @ ''/'' @ fl) w1)"
    then have s: "both_truthy (Some b) (Some fl) = Some (b, fl)"
      by (simp add: both_truthy_Some)
    from h have "extractions w1 = extractions w"
      by (auto dest: map_path_extractions)
    with h s show "install_file g package m fd conn w = Inr ((PyStr b, m\<lparr>name := fl\<rparr>), wx)
        \<and> extractions wx = extractions w @ [(m\<lparr>name := fl\<rparr>, b)]"
      by (simp add: install_file_def Let_def sep_join_def)
  qed
  from a b c show ?thesis by blast
qed

lemma map_path_apache_module:
  "map_path g_master ''apache/_modules/x.py'' apache None (Some conn0) w
     = Inr ((Some ''/m'', Some ''modules/x.py''), w)"
  by (simp add: map_path_def Let_def conn0_def apache_def expected_prefix_def
      top_level_name_def g_master_def opts_role_def node_type_str_def)

theorem install_file_cases_witness:
  "install_file g_master ''apache'' \<lparr>name = ''apache'', isdir = True\<rparr> apache (Some conn0) world0
     = Inr ((PyFalse, \<lparr>name = ''apache'', isdir = True\<rparr>), world0)
   \<and> install_file g_master ''apache'' \<lparr>name = ''apache/FORMULA'', isdir = False\<rparr> apache
        (Some conn0) world0
     = Inr ((PyFalse, \<lparr>name = ''apache/FORMULA'', isdir = False\<rparr>),
            log WARNING ''apache/FORMULA not in top level directory, not installing'' world0)
   \<and> install_file g_master ''apache'' \<lparr>name = ''apache/_modules/x.py'', isdir = False\<rparr> apache
        (Some conn0) world0
     = Inr ((PyStr ''/m'', \<lparr>name = ''modules/x.py'', isdir = False\<rparr>),
            world0\<lparr>events :=
              [Log DEBUG ''Installing package file modules/x.py to /m/modules/x.py'',
               Extract \<lparr>name = ''modules/x.py'', isdir = False\<rparr> ''/m'']\<rparr>)"
proof -
  have a: "install_file g_master ''apache'' \<lparr>name = ''apache'', isdir = True\<rparr> apache
             (Some conn0) world0
     = Inr ((PyFalse, \<lparr>name = ''apache'', isdir = True\<rparr>), world0)"
    using install_file_cases [where m = "\<lparr>name = ''apache'', isdir = True\<rparr>"
        and package = "''apache''"]
    by simp
  have b: "install_file g_master ''apache'' \<lparr>name = ''apache/FORMULA'', isdir = False\<rparr> apache
        (Some conn0) world0
     = Inr ((PyFalse, \<lparr>name = ''apache/FORMULA'', isdir = False\<rparr>),
            log WARNING ''apache/FORMULA not in top level directory, not installing'' world0)"
    using install_file_cases [where m = "\<lparr>name = ''apache/FORMULA'', isdir = False\<rparr>"
        and package = "''apache''" and g = g_master and fd = apache and conn = "Some conn0"
        and w = world0 and bp = None and fp = None and ?w1.0 = world0]
      map_path_apache_formula [of g_master world0]
    by simp
  have c: "install_file g_master ''apache'' \<lparr>name = ''apache/_modules/x.py'', isdir = False\<rparr>
        apache (Some conn0) world0
     = Inr ((PyStr ''/m'', \<lparr>name = ''modules/x.py'', isdir = False\<rparr>),
            world0\<lparr>events :=
              [Log DEBUG ''Installing package file modules/x.py to /m/modules/x.py'',
               Extract \<lparr>name = ''modules/x.py'', isdir = False\<rparr> ''/m'']\<rparr>)"
    using install_file_cases [where m = "\<lparr>name = ''apache/_modules/x.py'', isdir = False\<rparr>"
        and package = "''apache''" and g = g_master and fd = apache and conn = "Some conn0"
        and w = world0 and b = "''/m''" and fl = "''modules/x.py''" and ?w1.0 = world0
        and wx = "world0\<lparr>events :=
              [Log DEBUG ''Installing package file modules/x.py to /m/modules/x.py'',
               Extract \<lparr>name = ''modules/x.py'', isdir = False\<rparr> ''/m'']\<rparr>"]
      map_path_apache_module [of world0]
    by (simp add: tar_extract_def log_def world0_def)
  from a b c show ?thesis by blast
qed
lemma map_path_apache_underscore:
  "map_path g_master ''apache/_'' apache None (Some conn0) w = Inr ((Some ''/m'', Some []), w)"
  by (simp add: map_path_def Let_def conn0_def apache_def expected_prefix_def
      top_level_name_def g_master_def opts_role_def node_type_str_def)

text \<open>
  The claim as stated lets every mapping other than \<open>(None, None)\<close> lead to an extraction.
  The member \<^verbatim>\<open>apache/_\<close> maps to the module directory and the empty relative path, both
  determined; \<^verbatim>\<open>install_file\<close> returns \<^verbatim>\<open>False\<close> for it and extracts nothing.
\<close>

theorem install_file_empty_relative_counterexample:
  "map_path g_master ''apache/_'' apache None (Some conn0) world0
     = Inr ((Some ''/m'', Some []), world0)
   \<and> install_file g_master ''apache'' \<lparr>name = ''apache/_'', isdir = False\<rparr> apache
        (Some conn0) world0
     = Inr ((PyFalse, \<lparr>name = ''apache/_'', isdir = False\<rparr>),
            world0\<lparr>events :=
              [Log WARNING ''apache/_ not in top level directory, not installing'']\<rparr>)
   \<and> extractions
         (world0\<lparr>events :=
            [Log WARNING ''apache/_ not in top level directory, not installing'']\<rparr>) = []"
  by (simp add: map_path_apache_underscore install_file_def both_truthy_def py_not_def
      log_def world0_def extractions_def)

text \<open>
  The module's test \<^verbatim>\<open>test_install_file\<close> calls \<^verbatim>\<open>install_file\<close> under the role
  \<^verbatim>\<open>master\<close> with the member \<^verbatim>\<open>apache/_README\<close> and a connection context that holds
  \<^verbatim>\<open>formula_path\<close> alone. The module rule reads \<^verbatim>\<open>conn["spm_module_path"]\<close>, so this
  call raises \<^verbatim>\<open>KeyError\<close>.
\<close>

lemma install_file_without_module_path:
  "install_file g_master ''apache'' \<lparr>name = ''apache/_README'', isdir = False\<rparr> apache
     (Some [''formula_path'' \<mapsto> ''/tmp/test'']) w
   = Inl (KeyError ''spm_module_path'')"
  by (simp add: install_file_def map_path_def Let_def apache_def expected_prefix_def
      top_level_name_def g_master_def opts_role_def node_type_str_def)

subsection \<open>The existence scanner\<close>

text \<open>
  Claim C6, as the code has it. When the connection context is available, \<^verbatim>\<open>force\<close> is
  configured and no member's mapping raises, \<^verbatim>\<open>check_existing\<close> returns, in the order of
  the members, exactly the joined paths of the members that are not directories, map to
  a base and a relative path that are both there and not empty, and exist. The list does
  not depend on \<^verbatim>\<open>force\<close>. A member whose mapping has a component that is \<^verbatim>\<open>None\<close> or
  empty contributes nothing and is logged as a warning. With \<^verbatim>\<open>force\<close> set no
  error about an existing path is logged; without it one is logged for every returned
  path.
\<close>

theorem check_existing_conflicts:
  assumes ci: "conn_or_init g conn w = Inr (c, w1)"
    and fo: "force (opts g) = Some fo"
    and ok: "\<forall>m \<in> set pkg_files. \<not> isdir m \<longrightarrow> (\<exists>r. mapping_of g fd c m = Inr r)"
    and wx: "wx = (if list_all isdir pkg_files then w else w1)
                   \<lparr>events := events w
                        @ concat (map (member_events g package fd c w1) pkg_files)\<rparr>"
  shows "check_existing g package pkg_files fd conn w
           = Inr (concat (map (existing_path g fd c w1) pkg_files), wx)
    \<and> (\<forall>x. concat (map (existing_path (g\<lparr>opts := (opts g)\<lparr>force := x\<rparr>\<rparr>) fd c w1) pkg_files)
             = concat (map (existing_path g fd c w1) pkg_files))
    \<and> (\<forall>m \<in> set pkg_files. \<forall>bp fp es.
          \<not> isdir m \<and> mapping_of g fd c m = Inr ((bp, fp), es)
          \<and> (bp = None \<or> bp = Some [] \<or> fp = None \<or> fp = Some []) \<longrightarrow>
          existing_path g fd c w1 m = []
          \<and> Log WARNING (name m @ '' not in top level directory'') \<in> set (events wx))
    \<and> (fo \<longrightarrow>
          (\<forall>p. Log ERROR (p @ '' already exists, not installing'') \<in> set (events wx) \<longrightarrow>
               Log ERROR (p @ '' already exists, not installing'') \<in> set (events w)))
    \<and> (\<not> fo \<longrightarrow>
          (\<forall>p \<in> set (concat (map (existing_path g fd c w1) pkg_files)).
               Log ERROR (p @ '' already exists, not installing'') \<in> set (events wx)))"
proof -
  have ev: "events wx = events w @ concat (map (member_events g package fd c w1) pkg_files)"
    by (simp add: wx)
  have a: "check_existing g package pkg_files fd conn w
           = Inr (concat (map (existing_path g fd c w1) pkg_files), wx)"
    using check_existing_loop_spec [OF ci fo ok, of package "[]"]
    by (simp add: check_existing_def wx)
  have b: "\<forall>m \<in> set pkg_files. \<forall>bp fp es.
          \<not> isdir m \<and> mapping_of g fd c m = Inr ((bp, fp), es)
          \<and> (bp = None \<or> bp = Some [] \<or> fp = None \<or> fp = Some []) \<longrightarrow>
          existing_path g fd c w1 m = []
          \<and> Log WARNING (name m @ '' not in top level directory'') \<in> set (events wx)"
  proof (intro ballI allI impI)
    fix m bp fp es
    assume m: "m \<in> set pkg_files"
      and h: "\<not> isdir m \<and> mapping_of g fd c m = Inr ((bp, fp), es)
          \<and> (bp = None \<or> bp = Some [] \<or> fp = None \<or> fp = Some [])"
    from h have nd: "\<not> isdir m" and mo: "mapping_of g fd c m = Inr ((bp, fp), es)"
      and u: "bp = None \<or> bp = Some [] \<or> fp = None \<or> fp = Some []"
      by simp_all
    from member_events_warning(2) [OF nd mo u, of package w1] m
    have "Log WARNING (name m @ '' not in top level directory'') \<in> set (events wx)"
      unfolding ev by auto
    with member_events_warning(1) [OF nd mo u, of w1]
    show "existing_path g fd c w1 m = []
          \<and> Log WARNING (name m @ '' not in top level directory'') \<in> set (events wx)"
      by simp
  qed
  have c: "fo \<longrightarrow>
          (\<forall>p. Log ERROR (p @ '' already exists, not installing'') \<in> set (events wx) \<longrightarrow>
               Log ERROR (p @ '' already exists, not installing'') \<in> set (events w))"
  proof (intro impI allI)
    fix p
    assume f: fo
      and l: "Log ERROR (p @ '' already exists, not installing'') \<in> set (events wx)"
    from f fo have t: "force (opts g) = Some True" by simp
    show "Log ERROR (p @ '' already exists, not installing'') \<in> set (events w)"
    proof (rule ccontr)
      assume "Log ERROR (p @ '' already exists, not installing'') \<notin> set (events w)"
      with l obtain m where "Log ERROR (p @ '' already exists, not installing'')
           \<in> set (member_events g package fd c w1 m)"
        unfolding ev by auto
      with t show False by (rule member_events_forced)
    qed
  qed
  have d: "\<not> fo \<longrightarrow>
          (\<forall>p \<in> set (concat (map (existing_path g fd c w1) pkg_files)).
               Log ERROR (p @ '' already exists, not installing'') \<in> set (events wx))"
  proof (intro impI ballI)
    fix p
    assume f: "\<not> fo"
      and p: "p \<in> set (concat (map (existing_path g fd c w1) pkg_files))"
    from f fo have t: "force (opts g) = Some False" by simp
    from p obtain m where m: "m \<in> set pkg_files" and pm: "p \<in> set (existing_path g fd c w1 m)"
      by auto
    from member_events_unforced [OF t pm, of package] m
    show "Log ERROR (p @ '' already exists, not installing'') \<in> set (events wx)"
      unfolding ev by auto
  qed
  have e: "\<forall>x. concat (map (existing_path (g\<lparr>opts := (opts g)\<lparr>force := x\<rparr>\<rparr>) fd c w1) pkg_files)
             = concat (map (existing_path g fd c w1) pkg_files)"
    by (simp add: existing_path_force)
  from a b c d e show ?thesis by blast
qed

lemma conn0_keys:
  "conn0 ''formula_path'' \<noteq> None" "conn0 ''pillar_path'' \<noteq> None"
  "conn0 ''reactor_path'' \<noteq> None" "conn0 ''spm_module_path'' \<noteq> None"
  by (simp_all add: conn0_def)

lemma apache_named: "apache ''name'' \<noteq> None"
  by (simp add: apache_def)

lemma mapping_of_readme:
  "mapping_of g apache conn0 \<lparr>name = ''apache/README'', isdir = False\<rparr>
     = Inr ((Some ''/f'', Some ''README''), [])"
  by (simp add: mapping_of_def map_path_apache_readme world0_def)

lemma mapping_of_formula:
  "mapping_of g apache conn0 \<lparr>name = ''apache/FORMULA'', isdir = False\<rparr>
     = Inr ((None, None), [])"
  by (simp add: mapping_of_def map_path_apache_formula world0_def)

lemma mapping_of_init_sls:
  "mapping_of g apache conn0 \<lparr>name = ''apache/init.sls'', isdir = False\<rparr>
     = Inr ((Some ''/f'', Some ''init.sls''), [])"
  by (simp add: mapping_of_def map_path_def Let_def conn0_def apache_def endswith_def
      expected_prefix_def top_level_name_def world0_def)

theorem check_existing_conflicts_witness:
  "check_existing g_master ''apache''
     [\<lparr>name = ''apache'', isdir = True\<rparr>, \<lparr>name = ''apache/README'', isdir = False\<rparr>,
      \<lparr>name = ''apache/init.sls'', isdir = False\<rparr>, \<lparr>name = ''apache/FORMULA'', isdir = False\<rparr>]
     apache (Some conn0) world2
   = Inr ([''/f/README''],
          world2\<lparr>events :=
            [Log DEBUG ''Checking if apache:apache/README is already installed ...'',
             Log ERROR ''/f/README already exists, not installing'',
             Log DEBUG ''Checking if apache:apache/init.sls is already installed ...'',
             Log DEBUG ''Checking if apache:apache/FORMULA is already installed ...'',
             Log WARNING ''apache/FORMULA not in top level directory'']\<rparr>)
   \<and> check_existing g_forced ''apache''
     [\<lparr>name = ''apache'', isdir = True\<rparr>, \<lparr>name = ''apache/README'', isdir = False\<rparr>,
      \<lparr>name = ''apache/init.sls'', isdir = False\<rparr>, \<lparr>name = ''apache/FORMULA'', isdir = False\<rparr>]
     apache (Some conn0) world2
   = Inr ([''/f/README''],
          world2\<lparr>events :=
            [Log DEBUG ''Checking if apache:apache/README is already installed ...'',
             Log DEBUG ''Checking if apache:apache/init.sls is already installed ...'',
             Log DEBUG ''Checking if apache:apache/FORMULA is already installed ...'',
             Log WARNING ''apache/FORMULA not in top level directory'']\<rparr>)
   \<and> check_existing g_master ''apache'' [\<lparr>name = ''apache/README'', isdir = False\<rparr>]
     apache None world0
   = Inr ([], world_init\<lparr>events :=
            [Log DEBUG ''Checking if apache:apache/README is already installed ...'']\<rparr>)"
proof -
  have h: "conn_or_init g (Some conn0) world2 = Inr (conn0, world2)" for g
    by simp
  have fo: "force (opts g_master) = Some False"
    by (simp add: g_master_def opts_role_def)
  have fo': "force (opts g_forced) = Some True"
    by (simp add: g_forced_def opts_role_def)
  have ok: "\<forall>m \<in> set ms. \<not> isdir m \<longrightarrow> (\<exists>r. mapping_of g apache conn0 m = Inr r)" for ms g
    using mapping_of_total [where fd = apache and c = conn0 and g = g,
        OF apache_named conn0_keys]
    by blast
  have ex: "os_path_exists world2 ''/f/README''" "\<not> os_path_exists world2 ''/f/init.sls''"
    "events world2 = []" "\<not> os_path_exists world_init ''/f/README''" "events world0 = []"
    by (simp_all add: os_path_exists_def world2_def world_init_def world0_def)
  have a: "check_existing g_master ''apache''
     [\<lparr>name = ''apache'', isdir = True\<rparr>, \<lparr>name = ''apache/README'', isdir = False\<rparr>,
      \<lparr>name = ''apache/init.sls'', isdir = False\<rparr>, \<lparr>name = ''apache/FORMULA'', isdir = False\<rparr>]
     apache (Some conn0) world2
   = Inr ([''/f/README''],
          world2\<lparr>events :=
            [Log DEBUG ''Checking if apache:apache/README is already installed ...'',
             Log ERROR ''/f/README already exists, not installing'',
             Log DEBUG ''Checking if apache:apache/init.sls is already installed ...'',
             Log DEBUG ''Checking if apache:apache/FORMULA is already installed ...'',
             Log WARNING ''apache/FORMULA not in top level directory'']\<rparr>)"
    using check_existing_conflicts [OF h fo ok refl, of "''apache''"]
    by (simp add: existing_path_def member_events_def mapping_of_readme mapping_of_formula
        mapping_of_init_sls sep_join_def ex fo)
  have b: "check_existing g_forced ''apache''
     [\<lparr>name = ''apache'', isdir = True\<rparr>, \<lparr>name = ''apache/README'', isdir = False\<rparr>,
      \<lparr>name = ''apache/init.sls'', isdir = False\<rparr>, \<lparr>name = ''apache/FORMULA'', isdir = False\<rparr>]
     apache (Some conn0) world2
   = Inr ([''/f/README''],
          world2\<lparr>events :=
            [Log DEBUG ''Checking if apache:apache/README is already installed ...'',
             Log DEBUG ''Checking if apache:apache/init.sls is already installed ...'',
             Log DEBUG ''Checking if apache:apache/FORMULA is already installed ...'',
             Log WARNING ''apache/FORMULA not in top level directory'']\<rparr>)"
    using check_existing_conflicts [OF h fo' ok refl, of "''apache''"]
    by (simp add: existing_path_def member_events_def mapping_of_readme mapping_of_formula
        mapping_of_init_sls sep_join_def ex fo')
  have c: "check_existing g_master ''apache'' [\<lparr>name = ''apache/README'', isdir = False\<rparr>]
     apache None world0
   = Inr ([], world_init\<lparr>events :=
            [Log DEBUG ''Checking if apache:apache/README is already installed ...'']\<rparr>)"
    using check_existing_conflicts [OF conn_or_init_world0 fo ok refl, of "''apache''"]
    by (simp add: existing_path_def member_events_def mapping_of_readme sep_join_def ex fo)
  from a b c show ?thesis by blast
qed

text \<open>
  The claim as stated counts every member whose mapping is determined. The file
  \<^verbatim>\<open>apache/_\<close> maps to \<^verbatim>\<open>/m\<close> and the empty relative path, the joined path \<^verbatim>\<open>/m/\<close>
  exists, and \<^verbatim>\<open>check_existing\<close> skips the member with a warning.
\<close>

theorem check_existing_empty_relative_counterexample:
  "map_path g_master ''apache/_'' apache None (Some conn0) world2
     = Inr ((Some ''/m'', Some []), world2)
   \<and> os_path_exists world2 (sep_join ''/m'' [])
   \<and> check_existing g_master ''apache'' [\<lparr>name = ''apache/_'', isdir = False\<rparr>] apache
        (Some conn0) world2
     = Inr ([], world2\<lparr>events :=
          [Log DEBUG ''Checking if apache:apache/_ is already installed ...'',
           Log WARNING ''apache/_ not in top level directory'']\<rparr>)"
  by (simp add: map_path_apache_underscore check_existing_def both_truthy_def py_not_def
      log_def world2_def os_path_exists_def sep_join_def)

end
